theory Spec2Isabelle
  imports Main
begin

section \<open>JavaScript strings\<close>

text \<open>
  Strings are lists of characters. The model covers code units in the Latin-1 range;
  \<open>toLowerCase\<close> and \<open>trim\<close> follow ECMAScript on that range.
\<close>

definition startsWith :: "string \<Rightarrow> string \<Rightarrow> bool" where
  "startsWith s p = (take (length p) s = p)"

definition endsWith :: "string \<Rightarrow> string \<Rightarrow> bool" where
  "endsWith s p = (length p \<le> length s \<and> drop (length s - length p) s = p)"

text \<open>\<open>s.split(c)\<close> for a one-character separator: never the empty array.\<close>

fun split_on :: "char \<Rightarrow> string \<Rightarrow> string list" where
  "split_on c [] = [[]]"
| "split_on c (x # xs) =
     (if x = c then [] # split_on c xs
      else (case split_on c xs of [] \<Rightarrow> [[x]] | w # ws \<Rightarrow> (x # w) # ws))"

text \<open>\<open>arr[i]\<close>: \<open>undefined\<close> (here \<open>None\<close>) out of range.\<close>

fun js_index :: "'a list \<Rightarrow> nat \<Rightarrow> 'a option" where
  "js_index [] i = None"
| "js_index (x # xs) 0 = Some x"
| "js_index (x # xs) (Suc i) = js_index xs i"

text \<open>\<open>s.replace(/[:.]/g, '-')\<close>\<close>

definition replace_colon_dot :: "string \<Rightarrow> string" where
  "replace_colon_dot s = map (\<lambda>c. if c = CHR '':'' \<or> c = CHR ''.'' then CHR ''-'' else c) s"

definition lower_char :: "char \<Rightarrow> char" where
  "lower_char c =
     (let n = (of_char c :: nat) in
      if (65 \<le> n \<and> n \<le> 90) \<or> (192 \<le> n \<and> n \<le> 214) \<or> (216 \<le> n \<and> n \<le> 222)
      then char_of (n + 32) else c)"

definition toLowerCase :: "string \<Rightarrow> string" where
  "toLowerCase s = map lower_char s"

definition is_space :: "char \<Rightarrow> bool" where
  "is_space c = (let n = (of_char c :: nat) in (9 \<le> n \<and> n \<le> 13) \<or> n = 32 \<or> n = 160)"

definition trim :: "string \<Rightarrow> string" where
  "trim s = rev (dropWhile is_space (rev (dropWhile is_space s)))"

section \<open>Dates\<close>

text \<open>
  A \<open>Date\<close> is its time value: milliseconds since the epoch, UTC. The calendar fields are
  computed from it as ECMAScript does (proleptic Gregorian calendar).
\<close>

definition digit_char :: "nat \<Rightarrow> char" where
  "digit_char d = ''0123456789'' ! (d mod 10)"

definition pad2 :: "nat \<Rightarrow> string" where
  "pad2 n = [digit_char (n div 10), digit_char n]"

definition pad3 :: "nat \<Rightarrow> string" where
  "pad3 n = [digit_char (n div 100), digit_char (n div 10), digit_char n]"

definition pad4 :: "nat \<Rightarrow> string" where
  "pad4 n = [digit_char (n div 1000), digit_char (n div 100), digit_char (n div 10), digit_char n]"

definition pad6 :: "nat \<Rightarrow> string" where
  "pad6 n = [digit_char (n div 100000), digit_char (n div 10000)] @ pad4 n"

definition msPerDay :: int where
  "msPerDay = 86400000"

definition utc_hours :: "int \<Rightarrow> nat" where
  "utc_hours t = nat ((t div 3600000) mod 24)"

definition utc_minutes :: "int \<Rightarrow> nat" where
  "utc_minutes t = nat ((t div 60000) mod 60)"

definition utc_seconds :: "int \<Rightarrow> nat" where
  "utc_seconds t = nat ((t div 1000) mod 60)"

definition utc_millis :: "int \<Rightarrow> nat" where
  "utc_millis t = nat (t mod 1000)"

text \<open>
  The civil date of a day number counted from 0000-03-01: the 400-year era, the day
  and year within it, the day of the year counted from March 1st, its month and day.
\<close>

definition era_of :: "int \<Rightarrow> int" where
  "era_of z = z div 146097"

definition doe_of :: "int \<Rightarrow> int" where
  "doe_of z = z - era_of z * 146097"

definition yoe_of :: "int \<Rightarrow> int" where
  "yoe_of doe = (doe - doe div 1460 + doe div 36524 - doe div 146096) div 365"

definition doy_of :: "int \<Rightarrow> int" where
  "doy_of doe = doe - (365 * yoe_of doe + yoe_of doe div 4 - yoe_of doe div 100)"

definition mp_of :: "int \<Rightarrow> int" where
  "mp_of doy = (5 * doy + 2) div 153"

definition day_of :: "int \<Rightarrow> int" where
  "day_of doy = doy - (153 * mp_of doy + 2) div 5 + 1"

definition month_of :: "int \<Rightarrow> int" where
  "month_of doy = (if mp_of doy < 10 then mp_of doy + 3 else mp_of doy - 9)"

definition year_of :: "int \<Rightarrow> int" where
  "year_of z =
     yoe_of (doe_of z) + era_of z * 400 + (if month_of (doy_of (doe_of z)) \<le> 2 then 1 else 0)"

text \<open>(year, month 1..12, day 1..31) of the time value \<open>t\<close>, UTC.\<close>

definition utc_date :: "int \<Rightarrow> int \<times> nat \<times> nat" where
  "utc_date t =
     (year_of (t div msPerDay + 719468),
      nat (month_of (doy_of (doe_of (t div msPerDay + 719468)))),
      nat (day_of (doy_of (doe_of (t div msPerDay + 719468)))))"

definition iso_year :: "int \<Rightarrow> string" where
  "iso_year y =
     (if 0 \<le> y \<and> y \<le> 9999 then pad4 (nat y)
      else (if y < 0 then ''-'' else ''+'') @ pad6 (nat \<bar>y\<bar>))"

definition iso_date :: "int \<Rightarrow> string" where
  "iso_date t = (case utc_date t of (y, m, d) \<Rightarrow> iso_year y @ ''-'' @ pad2 m @ ''-'' @ pad2 d)"

definition iso_time :: "int \<Rightarrow> string" where
  "iso_time t =
     pad2 (utc_hours t) @ '':'' @ pad2 (utc_minutes t) @ '':'' @ pad2 (utc_seconds t)
       @ ''.'' @ pad3 (utc_millis t) @ ''Z''"

text \<open>\<open>date.toISOString()\<close>: \<open>YYYY-MM-DDTHH:mm:ss.sssZ\<close>\<close>

definition toISOString :: "int \<Rightarrow> string" where
  "toISOString t = iso_date t @ ''T'' @ iso_time t"

text \<open>SQLite's \<open>datetime('now')\<close>: \<open>YYYY-MM-DD HH:MM:SS\<close>, UTC.\<close>

definition sqlite_datetime :: "int \<Rightarrow> string" where
  "sqlite_datetime t =
     (case utc_date t of (y, m, d) \<Rightarrow>
        pad4 (nat y) @ ''-'' @ pad2 m @ ''-'' @ pad2 d @ '' '' @
        pad2 (utc_hours t) @ '':'' @ pad2 (utc_minutes t) @ '':'' @ pad2 (utc_seconds t))"

section \<open>Configuration (app.config.ts)\<close>

record app_config =
  database_name :: string
  backupPrefix :: string
  maxBackups :: int
  periodicIntervalHours :: int
  startupThresholdHours :: int
  sessionExpiryDays :: int
  rememberMeEnabled :: bool

definition AppConfig :: app_config where
  "AppConfig = \<lparr> database_name = ''app-data.db'', backupPrefix = ''app-backup'',
     maxBackups = 7, periodicIntervalHours = 6, startupThresholdHours = 24,
     sessionExpiryDays = 30, rememberMeEnabled = True \<rparr>"

section \<open>Backup service: file names\<close>

text \<open>
  \<open>new Date().toISOString().replace(/[:.]/g, '-').split('T')[0]\<close>; an \<open>undefined\<close> element
  would print as \<open>undefined\<close> in the template literal.
\<close>

definition timestamp_of :: "int \<Rightarrow> string" where
  "timestamp_of t =
     (case js_index (split_on CHR ''T'' (replace_colon_dot (toISOString t))) 0 of
        None \<Rightarrow> ''undefined'' | Some s \<Rightarrow> s)"

text \<open>
  \<open>new Date().toISOString().replace(/[:.]/g, '-').split('T')[1].split('-')[0]\<close>;
  \<open>None\<close> is the TypeError of calling \<open>split\<close> on \<open>undefined\<close>.
\<close>

definition timeStr_of :: "int \<Rightarrow> string option" where
  "timeStr_of t =
     (case js_index (split_on CHR ''T'' (replace_colon_dot (toISOString t))) 1 of
        None \<Rightarrow> None
      | Some s \<Rightarrow> Some (case js_index (split_on CHR ''-'' s) 0 of
                         None \<Rightarrow> ''undefined'' | Some h \<Rightarrow> h))"

text \<open>
  \<open>`${BACKUP_PREFIX}_${timestamp}_${timeStr}.db`\<close>. The two \<open>new Date()\<close> calls are two
  clock readings, \<open>t1\<close> and \<open>t2\<close>.
\<close>

definition backupFileName :: "app_config \<Rightarrow> int \<Rightarrow> int \<Rightarrow> string option" where
  "backupFileName cfg t1 t2 =
     (case timeStr_of t2 of
        None \<Rightarrow> None
      | Some timeStr \<Rightarrow> Some (backupPrefix cfg @ ''_'' @ timestamp_of t1 @ ''_'' @ timeStr @ ''.db''))"

section \<open>Results and errors\<close>

text \<open>
  The services return \<open>{ success, message }\<close> objects, some with more fields. A thrown
  JavaScript exception is a value carrying its \<open>message\<close>.
\<close>

record op_result =
  success :: bool
  message :: string

record backup_result = op_result +
  filePath :: "string option"

datatype js_error = FsError string | TypeError string | SqliteError string | OtherError string

fun error_message :: "js_error \<Rightarrow> string" where
  "error_message (FsError m) = m"
| "error_message (TypeError m) = m"
| "error_message (SqliteError m) = m"
| "error_message (OtherError m) = m"

definition split_of_undefined :: js_error where
  "split_of_undefined = TypeError ''Cannot read properties of undefined (reading 'split')''"

section \<open>File system\<close>

text \<open>
  The part of the file system the backup service touches: the database file at \<open>DB_PATH\<close>,
  the directory \<open>BACKUP_DIR\<close> (\<open>None\<close> while it does not exist) with its entries in
  \<open>readdirSync\<close> order, and the files written at destinations chosen in the save dialog.
  All entries are regular files. A call fails where the state makes it fail (a missing
  source, a missing directory, a destination that cannot be written); a copy stamps the
  destination with the time of the copy.
\<close>

record fs_file =
  content :: string
  mtime :: int

record fs_state =
  userData :: string
  db_file :: "fs_file option"
  backup_dir :: "(string \<times> fs_file) list option"
  user_files :: "(string \<times> fs_file) list"
  unwritable :: "string list"

definition path_join :: "string \<Rightarrow> string \<Rightarrow> string" where
  "path_join d n = d @ ''/'' @ n"

definition BACKUP_DIR :: "fs_state \<Rightarrow> string" where
  "BACKUP_DIR fs = path_join (userData fs) ''backups''"

fun write_entry :: "string \<Rightarrow> fs_file \<Rightarrow> (string \<times> fs_file) list \<Rightarrow> (string \<times> fs_file) list" where
  "write_entry n f [] = [(n, f)]"
| "write_entry n f (e # es) = (if fst e = n then (n, f) # es else e # write_entry n f es)"

text \<open>\<open>fs.copyFileSync(DB_PATH, path.join(BACKUP_DIR, name))\<close>, at time \<open>now\<close>\<close>

definition copy_db_to_backup :: "string \<Rightarrow> int \<Rightarrow> fs_state \<Rightarrow> js_error + fs_state" where
  "copy_db_to_backup n now fs =
     (case db_file fs of
        None \<Rightarrow> Inl (FsError ''ENOENT: no such file or directory, copyfile'')
      | Some f \<Rightarrow>
          (case backup_dir fs of
             None \<Rightarrow> Inl (FsError ''ENOENT: no such file or directory, copyfile'')
           | Some es \<Rightarrow>
               Inr (fs\<lparr>backup_dir := Some (write_entry n \<lparr>content = content f, mtime = now\<rparr> es)\<rparr>)))"

text \<open>\<open>fs.copyFileSync(DB_PATH, p)\<close> for a destination \<open>p\<close> chosen by the user\<close>

definition copy_db_to_path :: "string \<Rightarrow> int \<Rightarrow> fs_state \<Rightarrow> js_error + fs_state" where
  "copy_db_to_path p now fs =
     (case db_file fs of
        None \<Rightarrow> Inl (FsError ''ENOENT: no such file or directory, copyfile'')
      | Some f \<Rightarrow>
          if p \<in> set (unwritable fs) then Inl (FsError ''EACCES: permission denied, copyfile'')
          else Inr (fs\<lparr>user_files := write_entry p \<lparr>content = content f, mtime = now\<rparr> (user_files fs)\<rparr>))"

text \<open>\<open>fs.unlinkSync(path.join(BACKUP_DIR, n))\<close>\<close>

definition unlinkSync :: "string \<Rightarrow> (string \<times> fs_file) list \<Rightarrow> js_error + (string \<times> fs_file) list" where
  "unlinkSync n es =
     (if n \<in> fst ` set es then Inr (filter (\<lambda>e. fst e \<noteq> n) es)
      else Inl (FsError ''ENOENT: no such file or directory, unlink''))"

text \<open>\<open>arr.slice(start)\<close>\<close>

definition js_slice :: "'a list \<Rightarrow> int \<Rightarrow> 'a list" where
  "js_slice xs start =
     (if start < 0 then drop (nat (max (int (length xs) + start) 0)) xs else drop (nat start) xs)"

section \<open>Backup service\<close>

definition ensureBackupDir :: "fs_state \<Rightarrow> fs_state" where
  "ensureBackupDir fs = (if backup_dir fs = None then fs\<lparr>backup_dir := Some []\<rparr> else fs)"

text \<open>The filter of \<open>cleanupOldBackups\<close>, \<open>getLastBackupTime\<close> and \<open>getBackupInfo\<close>\<close>

definition is_backup_name :: "app_config \<Rightarrow> string \<Rightarrow> bool" where
  "is_backup_name cfg n = (startsWith n (backupPrefix cfg) \<and> endsWith n ''.db'')"

record listed =
  name :: string
  time :: int

text \<open>
  \<open>readdirSync(BACKUP_DIR).filter(...).map(...).sort((a, b) => b.time - a.time)\<close>:
  newest first; the sort is stable.
\<close>

definition list_backups :: "app_config \<Rightarrow> (string \<times> fs_file) list \<Rightarrow> listed list" where
  "list_backups cfg es =
     sort_key (\<lambda>f. - time f)
       (map (\<lambda>e. \<lparr>name = fst e, time = mtime (snd e)\<rparr>)
          (filter (\<lambda>e. is_backup_name cfg (fst e)) es))"

text \<open>
  \<open>filesToDelete.forEach(file => fs.unlinkSync(file.path))\<close>; an exception ends the loop
  and is logged by the caller's \<open>catch\<close>.
\<close>

fun unlink_each :: "listed list \<Rightarrow> (string \<times> fs_file) list \<Rightarrow> (string \<times> fs_file) list" where
  "unlink_each [] es = es"
| "unlink_each (f # fs) es =
     (case unlinkSync (name f) es of Inl e \<Rightarrow> es | Inr es' \<Rightarrow> unlink_each fs es')"

definition cleanupOldBackups :: "app_config \<Rightarrow> fs_state \<Rightarrow> fs_state" where
  "cleanupOldBackups cfg fs =
     (case backup_dir fs of
        None \<Rightarrow> fs
      | Some es \<Rightarrow>
          (let files = list_backups cfg es in
           if int (length files) > maxBackups cfg
           then fs\<lparr>backup_dir := Some (unlink_each (js_slice files (maxBackups cfg)) es)\<rparr>
           else fs))"

text \<open>
  \<open>createBackup\<close> reads the clock at \<open>t1\<close> (date part of the name) and \<open>t2\<close> (time part);
  the copy happens at \<open>t3\<close>.
\<close>

definition createBackup ::
  "app_config \<Rightarrow> int \<Rightarrow> int \<Rightarrow> int \<Rightarrow> fs_state \<Rightarrow> backup_result \<times> fs_state" where
  "createBackup cfg t1 t2 t3 fs =
     (let fs1 = ensureBackupDir fs in
      if db_file fs1 = None
      then (\<lparr>success = False, message = ''Database file not found'', filePath = None\<rparr>, fs1)
      else
        (case backupFileName cfg t1 t2 of
           None \<Rightarrow>
             (\<lparr>success = False,
               message = ''Backup failed: '' @ error_message split_of_undefined,
               filePath = None\<rparr>, fs1)
         | Some backupFileName' \<Rightarrow>
             (case copy_db_to_backup backupFileName' t3 fs1 of
                Inl e \<Rightarrow>
                  (\<lparr>success = False, message = ''Backup failed: '' @ error_message e,
                    filePath = None\<rparr>, fs1)
              | Inr fs2 \<Rightarrow>
                  (\<lparr>success = True, message = ''Backup created successfully'',
                    filePath = Some (path_join (BACKUP_DIR fs) backupFileName')\<rparr>,
                   cleanupOldBackups cfg fs2))))"

text \<open>What \<open>dialog.showSaveDialog\<close> resolves to.\<close>

record save_dialog_result =
  canceled :: bool
  chosen_path :: string

definition createManualBackup ::
  "app_config \<Rightarrow> int \<Rightarrow> int \<Rightarrow> js_error + save_dialog_result \<Rightarrow> int \<Rightarrow> fs_state
     \<Rightarrow> op_result \<times> fs_state" where
  "createManualBackup cfg t1 t2 dialog t3 fs =
     (if db_file fs = None
      then (\<lparr>success = False, message = ''Database file not found''\<rparr>, fs)
      else
        (case backupFileName cfg t1 t2 of
           None \<Rightarrow>
             (\<lparr>success = False,
               message = ''Backup failed: '' @ error_message split_of_undefined\<rparr>, fs)
         | Some defaultFileName \<Rightarrow>
             (case dialog of
                Inl e \<Rightarrow> (\<lparr>success = False, message = ''Backup failed: '' @ error_message e\<rparr>, fs)
              | Inr result \<Rightarrow>
                  if canceled result \<or> chosen_path result = []
                  then (\<lparr>success = False, message = ''Backup cancelled''\<rparr>, fs)
                  else
                    (case copy_db_to_path (chosen_path result) t3 fs of
                       Inl e \<Rightarrow>
                         (\<lparr>success = False, message = ''Backup failed: '' @ error_message e\<rparr>, fs)
                     | Inr fs' \<Rightarrow>
                         (\<lparr>success = True,
                           message = ''Backup saved to '' @ chosen_path result\<rparr>, fs')))))"

text \<open>\<open>getBackupInfo().backupCount\<close>\<close>

definition backupCount :: "app_config \<Rightarrow> fs_state \<Rightarrow> nat" where
  "backupCount cfg fs =
     (case backup_dir (ensureBackupDir fs) of
        None \<Rightarrow> 0
      | Some es \<Rightarrow> length (filter (\<lambda>n. is_backup_name cfg n) (map fst es)))"

section \<open>Database (migrations.ts)\<close>

text \<open>
  The two auth tables as lists of rows. The constraints of the schema are checked where
  SQLite checks them, on \<open>INSERT\<close>: \<open>auth_user.id\<close> is \<open>PRIMARY KEY CHECK (id = 1)\<close>,
  \<open>auth_user.username\<close> is \<open>UNIQUE\<close>, \<open>auth_sessions.id\<close> is \<open>PRIMARY KEY\<close> and
  \<open>auth_sessions.user_id\<close> references \<open>auth_user(id)\<close>. The column \<open>expires_at\<close> holds
  the time value of the ISO string the code stores and parses back.
\<close>

record user_row =
  u_id :: int
  username :: string
  password_hash :: string
  created_at :: string
  last_login :: "string option"

record session_row =
  s_id :: string
  s_user_id :: int
  s_created_at :: string
  expires_at :: int

record db_state =
  auth_user :: "user_row list"
  auth_sessions :: "session_row list"

text \<open>The tables as \<open>initDatabase\<close> creates them.\<close>

definition initDatabase :: db_state where
  "initDatabase = \<lparr>auth_user = [], auth_sessions = []\<rparr>"

definition insert_auth_user :: "user_row \<Rightarrow> user_row list \<Rightarrow> js_error + user_row list" where
  "insert_auth_user r tbl =
     (if u_id r \<noteq> 1 then Inl (SqliteError ''CHECK constraint failed: id = 1'')
      else if u_id r \<in> u_id ` set tbl
      then Inl (SqliteError ''UNIQUE constraint failed: auth_user.id'')
      else if username r \<in> username ` set tbl
      then Inl (SqliteError ''UNIQUE constraint failed: auth_user.username'')
      else Inr (tbl @ [r]))"

definition insert_auth_session :: "session_row \<Rightarrow> db_state \<Rightarrow> js_error + db_state" where
  "insert_auth_session r db =
     (if s_id r \<in> s_id ` set (auth_sessions db)
      then Inl (SqliteError ''UNIQUE constraint failed: auth_sessions.id'')
      else if s_user_id r \<notin> u_id ` set (auth_user db)
      then Inl (SqliteError ''FOREIGN KEY constraint failed'')
      else Inr (db\<lparr>auth_sessions := auth_sessions db @ [r]\<rparr>))"

text \<open>\<open>SELECT ... FROM auth_user WHERE id = 1\<close>, \<open>.get()\<close>\<close>

definition select_user :: "db_state \<Rightarrow> user_row option" where
  "select_user db = find (\<lambda>u. u_id u = 1) (auth_user db)"

text \<open>\<open>DELETE FROM auth_sessions WHERE user_id = 1\<close>\<close>

definition delete_user_sessions :: "db_state \<Rightarrow> db_state" where
  "delete_user_sessions db = db\<lparr>auth_sessions := filter (\<lambda>s. s_user_id s \<noteq> 1) (auth_sessions db)\<rparr>"

text \<open>\<open>DELETE FROM auth_sessions WHERE id = ?\<close>\<close>

definition delete_session :: "string \<Rightarrow> db_state \<Rightarrow> db_state" where
  "delete_session tok db = db\<lparr>auth_sessions := filter (\<lambda>s. s_id s \<noteq> tok) (auth_sessions db)\<rparr>"

section \<open>Auth service\<close>

text \<open>
  \<open>bcryptjs\<close> is a parameter: \<open>bc_hash salt password\<close> is \<open>bcrypt.hash(password, 12)\<close> with the
  salt it draws, \<open>bc_compare password hash\<close> is \<open>bcrypt.compare\<close>. The token of a session is
  what \<open>uuidv4()\<close> returns. The clock readings of one call are one instant \<open>now\<close>, and
  \<open>setDate(getDate() + n)\<close> adds \<open>n\<close> days of 86400000 ms (a zone without clock changes).
  Each call runs to its end before the next one starts.
\<close>

record bcrypt =
  bc_hash :: "string \<Rightarrow> string \<Rightarrow> string"
  bc_compare :: "string \<Rightarrow> string \<Rightarrow> bool"

record AuthUser =
  au_id :: int
  au_username :: string
  au_created_at :: string
  au_last_login :: "string option"

record SetupData =
  sd_username :: string
  sd_password :: string

record LoginData =
  ld_username :: string
  ld_password :: string
  rememberMe :: bool

record LoginResult = op_result +
  sessionToken :: "string option"
  user :: "AuthUser option"

record ChangePasswordData =
  currentPassword :: string
  newPassword :: string

record ValidateResult =
  valid :: bool
  v_user :: "AuthUser option"

definition isSetupComplete :: "db_state \<Rightarrow> bool" where
  "isSetupComplete db = (select_user db \<noteq> None)"

definition createUser ::
  "bcrypt \<Rightarrow> SetupData \<Rightarrow> string \<Rightarrow> int \<Rightarrow> db_state \<Rightarrow> op_result \<times> db_state" where
  "createUser bc data salt now db =
     (if isSetupComplete db
      then (\<lparr>success = False, message = ''User already exists''\<rparr>, db)
      else if sd_username data = [] \<or> length (sd_username data) < 3
      then (\<lparr>success = False, message = ''Username must be at least 3 characters''\<rparr>, db)
      else if sd_password data = [] \<or> length (sd_password data) < 6
      then (\<lparr>success = False, message = ''Password must be at least 6 characters''\<rparr>, db)
      else
        (let passwordHash = bc_hash bc salt (sd_password data) in
         case insert_auth_user
                \<lparr>u_id = 1, username = trim (toLowerCase (sd_username data)),
                 password_hash = passwordHash, created_at = sqlite_datetime now,
                 last_login = None\<rparr> (auth_user db) of
           Inl e \<Rightarrow>
             (\<lparr>success = False, message = ''Failed to create account: '' @ error_message e\<rparr>, db)
         | Inr tbl \<Rightarrow>
             (\<lparr>success = True, message = ''Account created successfully''\<rparr>,
              db\<lparr>auth_user := tbl\<rparr>)))"

definition login_failure :: "string \<Rightarrow> LoginResult" where
  "login_failure m = \<lparr>success = False, message = m, sessionToken = None, user = None\<rparr>"

definition login ::
  "bcrypt \<Rightarrow> app_config \<Rightarrow> LoginData \<Rightarrow> string \<Rightarrow> int \<Rightarrow> db_state \<Rightarrow> LoginResult \<times> db_state" where
  "login bc cfg data uuid now db =
     (case select_user db of
        None \<Rightarrow> (login_failure ''No account exists. Please set up your account first.'', db)
      | Some u \<Rightarrow>
          if \<not> bc_compare bc (ld_password data) (password_hash u)
          then (login_failure ''Invalid password'', db)
          else if toLowerCase (username u) \<noteq> trim (toLowerCase (ld_username data))
          then (login_failure ''Invalid username'', db)
          else
            (let db1 = db\<lparr>auth_user :=
                         map (\<lambda>r. if u_id r = 1 then r\<lparr>last_login := Some (sqlite_datetime now)\<rparr> else r)
                           (auth_user db)\<rparr>;
                 identity = \<lparr>au_id = u_id u, au_username = username u,
                             au_created_at = created_at u, au_last_login = last_login u\<rparr>
             in if rememberMe data \<and> rememberMeEnabled cfg
                then
                  (let db2 = delete_user_sessions db1 in
                   case insert_auth_session
                          \<lparr>s_id = uuid, s_user_id = 1, s_created_at = sqlite_datetime now,
                           expires_at = now + sessionExpiryDays cfg * msPerDay\<rparr> db2 of
                     Inl e \<Rightarrow> (login_failure (''Login failed: '' @ error_message e), db2)
                   | Inr db3 \<Rightarrow>
                       (\<lparr>success = True, message = ''Login successful'',
                         sessionToken = Some uuid, user = Some identity\<rparr>, db3))
                else
                  (\<lparr>success = True, message = ''Login successful'',
                    sessionToken = None, user = Some identity\<rparr>, db1)))"

text \<open>\<open>logout(sessionToken?)\<close>: an absent or empty token deletes nothing.\<close>

definition logout :: "string option \<Rightarrow> db_state \<Rightarrow> op_result \<times> db_state" where
  "logout sessionToken' db =
     (\<lparr>success = True, message = ''Logged out successfully''\<rparr>,
      (case sessionToken' of
         None \<Rightarrow> db
       | Some tok \<Rightarrow> if tok = [] then db else delete_session tok db))"

text \<open>
  The join of \<open>validateSession\<close>:
  \<open>FROM auth_sessions s JOIN auth_user u ON s.user_id = u.id WHERE s.id = ?\<close>; \<open>.get()\<close>
  takes the first row.
\<close>

definition session_rows :: "string \<Rightarrow> db_state \<Rightarrow> (session_row \<times> user_row) list" where
  "session_rows tok db =
     [(s, u). s \<leftarrow> auth_sessions db, s_id s = tok, u \<leftarrow> auth_user db, s_user_id s = u_id u]"

definition select_session :: "string \<Rightarrow> db_state \<Rightarrow> (session_row \<times> user_row) option" where
  "select_session tok db = (case session_rows tok db of [] \<Rightarrow> None | r # _ \<Rightarrow> Some r)"

definition validateSession :: "string \<Rightarrow> int \<Rightarrow> db_state \<Rightarrow> ValidateResult \<times> db_state" where
  "validateSession sessionToken' now db =
     (case select_session sessionToken' db of
        None \<Rightarrow> (\<lparr>valid = False, v_user = None\<rparr>, db)
      | Some (s, u) \<Rightarrow>
          if expires_at s < now
          then (\<lparr>valid = False, v_user = None\<rparr>, delete_session sessionToken' db)
          else
            (\<lparr>valid = True,
              v_user = Some \<lparr>au_id = u_id u, au_username = username u,
                             au_created_at = created_at u, au_last_login = last_login u\<rparr>\<rparr>, db))"

definition changePassword ::
  "bcrypt \<Rightarrow> ChangePasswordData \<Rightarrow> string \<Rightarrow> db_state \<Rightarrow> op_result \<times> db_state" where
  "changePassword bc data salt db =
     (case select_user db of
        None \<Rightarrow> (\<lparr>success = False, message = ''No account exists''\<rparr>, db)
      | Some u \<Rightarrow>
          if \<not> bc_compare bc (currentPassword data) (password_hash u)
          then (\<lparr>success = False, message = ''Current password is incorrect''\<rparr>, db)
          else if newPassword data = [] \<or> length (newPassword data) < 6
          then (\<lparr>success = False, message = ''New password must be at least 6 characters''\<rparr>, db)
          else
            (let newPasswordHash = bc_hash bc salt (newPassword data);
                 db1 = db\<lparr>auth_user :=
                         map (\<lambda>r. if u_id r = 1 then r\<lparr>password_hash := newPasswordHash\<rparr> else r)
                           (auth_user db)\<rparr>
             in (\<lparr>success = True, message = ''Password changed successfully''\<rparr>,
                 delete_user_sessions db1)))"

text \<open>SQLite compares the two \<open>TEXT\<close> values of \<open>cleanupExpiredSessions\<close> byte by byte.\<close>

fun text_less :: "string \<Rightarrow> string \<Rightarrow> bool" where
  "text_less [] [] = False"
| "text_less [] (y # ys) = True"
| "text_less (x # xs) [] = False"
| "text_less (x # xs) (y # ys) =
     (if (of_char x :: nat) < of_char y then True
      else if (of_char y :: nat) < of_char x then False
      else text_less xs ys)"

text \<open>\<open>DELETE FROM auth_sessions WHERE expires_at < datetime('now')\<close>\<close>

definition cleanupExpiredSessions :: "int \<Rightarrow> db_state \<Rightarrow> db_state" where
  "cleanupExpiredSessions now db =
     db\<lparr>auth_sessions :=
          filter (\<lambda>s. \<not> text_less (toISOString (expires_at s)) (sqlite_datetime now))
            (auth_sessions db)\<rparr>"

text \<open>The exported operations, and the database after a sequence of them.\<close>

datatype auth_op =
    CreateUser SetupData string int
  | Login LoginData string int
  | Logout "string option"
  | ValidateSession string int
  | ChangePassword ChangePasswordData string
  | CleanupExpiredSessions int

fun auth_step :: "bcrypt \<Rightarrow> app_config \<Rightarrow> auth_op \<Rightarrow> db_state \<Rightarrow> db_state" where
  "auth_step bc cfg (CreateUser data salt now) db = snd (createUser bc data salt now db)"
| "auth_step bc cfg (Login data uuid now) db = snd (login bc cfg data uuid now db)"
| "auth_step bc cfg (Logout tok) db = snd (logout tok db)"
| "auth_step bc cfg (ValidateSession tok now) db = snd (validateSession tok now db)"
| "auth_step bc cfg (ChangePassword data salt) db = snd (changePassword bc data salt db)"
| "auth_step bc cfg (CleanupExpiredSessions now) db = cleanupExpiredSessions now db"

definition auth_run :: "bcrypt \<Rightarrow> app_config \<Rightarrow> auth_op list \<Rightarrow> db_state \<Rightarrow> db_state" where
  "auth_run bc cfg ops db = fold (auth_step bc cfg) ops db"

text \<open>A stand-in for bcrypt in examples: the hash is the salt followed by the password.\<close>

definition demo_bcrypt :: bcrypt where
  "demo_bcrypt = \<lparr>bc_hash = (\<lambda>salt pw. salt @ pw),
                   bc_compare = (\<lambda>pw h. length pw \<le> length h \<and> drop (length h - length pw) h = pw)\<rparr>"

section \<open>Auxiliary definitions\<close>

text \<open>Auxiliary notions for the proofs about file names.\<close>

definition digits_only :: "string \<Rightarrow> bool" where
  "digits_only s = (set s \<subseteq> set ''0123456789'')"

definition dashed_time :: "int \<Rightarrow> string" where
  "dashed_time t =
     pad2 (utc_minutes t) @ ''-'' @ pad2 (utc_seconds t) @ ''-'' @ pad3 (utc_millis t) @ ''Z''"

text \<open>A directory lists each name once.\<close>

definition dir_ok :: "fs_state \<Rightarrow> bool" where
  "dir_ok fs = (case backup_dir fs of None \<Rightarrow> True | Some es \<Rightarrow> distinct (map fst es))"

text \<open>The number of entries that pass the filter of the backup service.\<close>

definition count_backups :: "app_config \<Rightarrow> (string \<times> fs_file) list \<Rightarrow> nat" where
  "count_backups cfg es = length (filter (is_backup_name cfg) (map fst es))"

text \<open>The entries of the backup directory, none while it does not exist.\<close>

definition entries_of :: "fs_state \<Rightarrow> (string \<times> fs_file) list" where
  "entries_of fs = (case backup_dir fs of None \<Rightarrow> [] | Some es \<Rightarrow> es)"

text \<open>The file name in closed form (\<open>backupFileName_eq\<close> below).\<close>

definition snapshot_name :: "app_config \<Rightarrow> int \<Rightarrow> int \<Rightarrow> string" where
  "snapshot_name cfg t1 t2 =
     backupPrefix cfg @ ''_'' @ iso_date t1 @ ''_'' @ pad2 (utc_hours t2) @ ''.db''"

text \<open>Example states: a fresh installation, and a backup directory with an unrelated file.\<close>

definition demo_fs :: fs_state where
  "demo_fs = \<lparr>userData = ''/home/user/.config/MyApp'',
              db_file = Some \<lparr>content = ''SQLite format 3'', mtime = 0\<rparr>,
              backup_dir = None, user_files = [], unwritable = []\<rparr>"

definition demo_dir :: "(string \<times> fs_file) list" where
  "demo_dir = [(''notes.txt'', \<lparr>content = ''keep me'', mtime = 5\<rparr>),
               (''app-backup_2024-01-14_10.db'', \<lparr>content = ''old'', mtime = 100\<rparr>),
               (''app-backup_2024-01-15_10.db'', \<lparr>content = ''new'', mtime = 200\<rparr>)]"

text \<open>
  What the schema guarantees of a database: every user row has id 1, ids and session
  tokens are unique, and every session belongs to a user row.
\<close>

definition db_ok :: "db_state \<Rightarrow> bool" where
  "db_ok db =
     (list_all (\<lambda>u. u_id u = 1) (auth_user db) \<and>
      distinct (map u_id (auth_user db)) \<and>
      distinct (map s_id (auth_sessions db)) \<and>
      list_all (\<lambda>s. s_user_id s \<in> u_id ` set (auth_user db)) (auth_sessions db))"

text \<open>
  Example databases: after provisioning \<open>alice\<close> with the password \<open>secret1\<close>, and after
  her login with a remembered session.
\<close>

definition demo_db :: db_state where
  "demo_db = \<lparr>auth_user = [\<lparr>u_id = 1, username = ''alice'', password_hash = ''saltsecret1'',
                              created_at = ''2024-01-15 10:30:45'', last_login = None\<rparr>],
              auth_sessions = []\<rparr>"

definition demo_session_db :: db_state where
  "demo_session_db =
     \<lparr>auth_user = [\<lparr>u_id = 1, username = ''alice'', password_hash = ''saltsecret1'',
                    created_at = ''2024-01-15 10:30:45'',
                    last_login = Some ''2024-01-15 10:30:46''\<rparr>],
      auth_sessions = [\<lparr>s_id = ''tok'', s_user_id = 1, s_created_at = ''2024-01-15 10:30:46'',
                        expires_at = 1707906646123\<rparr>]\<rparr>"

section \<open>The file name of a snapshot\<close>

lemma split_on_not_Nil: "split_on c s \<noteq> []"
  by (induction s) (auto split: list.splits)

lemma split_on_no_sep: "c \<notin> set a \<Longrightarrow> split_on c a = [a]"
  by (induction a) auto

lemma split_on_first: "c \<notin> set a \<Longrightarrow> split_on c (a @ c # b) = a # split_on c b"
  by (induction a) auto

lemma digit_char_cases:
  "digit_char d \<in> set ''0123456789''"
  unfolding digit_char_def by (rule nth_mem) simp

lemma digits_only_pad2: "digits_only (pad2 n)"
  using digit_char_cases by (simp add: digits_only_def pad2_def)

lemma digits_only_pad3: "digits_only (pad3 n)"
  using digit_char_cases by (simp add: digits_only_def pad3_def)

lemma digits_only_pad4: "digits_only (pad4 n)"
  using digit_char_cases by (simp add: digits_only_def pad4_def)

lemma digits_only_pad6: "digits_only (pad6 n)"
  using digit_char_cases digits_only_pad4[of n] by (simp add: digits_only_def pad6_def)

lemma replace_colon_dot_Nil [simp]: "replace_colon_dot [] = []"
  by (simp add: replace_colon_dot_def)

lemma replace_colon_dot_Cons [simp]:
  "replace_colon_dot (c # s) =
     (if c = CHR '':'' \<or> c = CHR ''.'' then CHR ''-'' else c) # replace_colon_dot s"
  by (simp add: replace_colon_dot_def)

lemma replace_colon_dot_append [simp]:
  "replace_colon_dot (a @ b) = replace_colon_dot a @ replace_colon_dot b"
  by (simp add: replace_colon_dot_def)

lemma digits_only_replace: "digits_only s \<Longrightarrow> replace_colon_dot s = s"
  unfolding digits_only_def
  by (induction s) auto

lemma digits_only_no_T: "digits_only s \<Longrightarrow> CHR ''T'' \<notin> set s"
  unfolding digits_only_def by auto

lemma digits_only_no_dash: "digits_only s \<Longrightarrow> CHR ''-'' \<notin> set s"
  unfolding digits_only_def by auto

lemmas replace_pads [simp] =
  digits_only_replace[OF digits_only_pad2] digits_only_replace[OF digits_only_pad3]
  digits_only_replace[OF digits_only_pad4] digits_only_replace[OF digits_only_pad6]

lemmas no_T_pads [simp] =
  digits_only_no_T[OF digits_only_pad2] digits_only_no_T[OF digits_only_pad3]
  digits_only_no_T[OF digits_only_pad4] digits_only_no_T[OF digits_only_pad6]

lemma replace_iso_year: "replace_colon_dot (iso_year y) = iso_year y"
  by (simp add: iso_year_def)

lemma no_T_iso_year: "CHR ''T'' \<notin> set (iso_year y)"
  by (simp add: iso_year_def)

lemma replace_iso_date: "replace_colon_dot (iso_date t) = iso_date t"
  by (simp add: iso_date_def replace_iso_year split: prod.splits)

lemma no_T_iso_date: "CHR ''T'' \<notin> set (iso_date t)"
  by (simp add: iso_date_def no_T_iso_year split: prod.splits)

lemma replace_iso_time:
  "replace_colon_dot (iso_time t) = pad2 (utc_hours t) @ CHR ''-'' # dashed_time t"
  by (simp add: iso_time_def dashed_time_def)

lemma no_T_dashed_time: "CHR ''T'' \<notin> set (dashed_time t)"
  by (simp add: dashed_time_def)

lemma split_T_iso:
  "split_on CHR ''T'' (replace_colon_dot (toISOString t)) =
     [iso_date t, pad2 (utc_hours t) @ CHR ''-'' # dashed_time t]"
proof -
  have "CHR ''T'' \<notin> set (pad2 (utc_hours t) @ CHR ''-'' # dashed_time t)"
    using no_T_dashed_time by simp
  then have "split_on CHR ''T'' (pad2 (utc_hours t) @ CHR ''-'' # dashed_time t) =
      [pad2 (utc_hours t) @ CHR ''-'' # dashed_time t]"
    by (rule split_on_no_sep)
  moreover have "replace_colon_dot (toISOString t) =
      iso_date t @ CHR ''T'' # (pad2 (utc_hours t) @ CHR ''-'' # dashed_time t)"
    by (simp add: toISOString_def replace_iso_date replace_iso_time)
  ultimately show ?thesis
    using split_on_first[OF no_T_iso_date] by simp
qed

lemma timestamp_of_eq: "timestamp_of t = iso_date t"
  by (simp add: timestamp_of_def split_T_iso)

lemma timeStr_of_eq: "timeStr_of t = Some (pad2 (utc_hours t))"
proof -
  have "split_on CHR ''-'' (pad2 (utc_hours t) @ CHR ''-'' # dashed_time t) =
      pad2 (utc_hours t) # split_on CHR ''-'' (dashed_time t)"
    by (rule split_on_first[OF digits_only_no_dash[OF digits_only_pad2]])
  then show ?thesis
    by (simp add: timeStr_of_def split_T_iso numeral_eq_Suc)
qed

lemma backupFileName_eq:
  "backupFileName cfg t1 t2 =
     Some (backupPrefix cfg @ ''_'' @ iso_date t1 @ ''_'' @ pad2 (utc_hours t2) @ ''.db'')"
  by (simp add: backupFileName_def timeStr_of_eq timestamp_of_eq)

section \<open>Retention pruning\<close>

lemma map_fst_write_entry:
  "map fst (write_entry n f es) = (if n \<in> fst ` set es then map fst es else map fst es @ [n])"
  by (induction es) auto

lemma distinct_write_entry:
  "distinct (map fst es) \<Longrightarrow> distinct (map fst (write_entry n f es))"
  by (simp add: map_fst_write_entry)


lemma unlink_each_filter:
  "distinct (map name D) \<Longrightarrow> name ` set D \<subseteq> fst ` set es \<Longrightarrow>
   unlink_each D es = filter (\<lambda>e. fst e \<notin> name ` set D) es"
proof (induction D arbitrary: es)
  case Nil
  then show ?case by simp
next
  case (Cons f D)
  have in_es: "name f \<in> fst ` set es" using Cons.prems(2) by simp
  let ?es' = "filter (\<lambda>e. fst e \<noteq> name f) es"
  have "name ` set D \<subseteq> fst ` set ?es'"
  proof
    fix n assume n: "n \<in> name ` set D"
    have "name f \<notin> name ` set D" using Cons.prems(1) by simp
    with n have "n \<noteq> name f" by blast
    moreover have "n \<in> fst ` set es" using n Cons.prems(2) by auto
    ultimately show "n \<in> fst ` set ?es'" by auto
  qed
  then have "unlink_each D ?es' = filter (\<lambda>e. fst e \<notin> name ` set D) ?es'"
    using Cons.IH Cons.prems(1) by simp
  also have "\<dots> = filter (\<lambda>e. fst e \<notin> name ` set (f # D)) es"
    by (auto intro: filter_cong)
  finally show ?case using in_es
    by (simp add: unlinkSync_def)
qed

lemma map_name_list_backups_set:
  "name ` set (list_backups cfg es) = {n \<in> fst ` set es. is_backup_name cfg n}"
  by (force simp: list_backups_def image_iff)

lemma length_list_backups: "length (list_backups cfg es) = count_backups cfg es"
  by (simp add: list_backups_def count_backups_def filter_map comp_def)

lemma distinct_names_list_backups:
  assumes "distinct (map fst es)"
  shows "distinct (map name (list_backups cfg es))"
proof -
  let ?xs = "map (\<lambda>e. \<lparr>name = fst e, time = mtime (snd e)\<rparr>)
          (filter (\<lambda>e. is_backup_name cfg (fst e)) es)"
  have "map name ?xs = map fst (filter (\<lambda>e. is_backup_name cfg (fst e)) es)"
    by (simp add: comp_def)
  then have "distinct (map name ?xs)"
    using assms by (simp only: distinct_map_filter)
  then have "distinct ?xs \<and> inj_on name (set ?xs)"
    by (simp only: distinct_map)
  then have "distinct (sort_key (\<lambda>f. - time f) ?xs) \<and> inj_on name (set (sort_key (\<lambda>f. - time f) ?xs))"
    by simp
  then show ?thesis
    unfolding list_backups_def by (simp only: distinct_map)
qed

lemma js_slice_nonneg: "0 \<le> k \<Longrightarrow> js_slice xs k = drop (nat k) xs"
  by (simp add: js_slice_def)

lemma count_after_unlink:
  assumes d: "distinct (map fst es)" and k: "0 \<le> k"
    and big: "int (count_backups cfg es) > k"
  shows "count_backups cfg (unlink_each (js_slice (list_backups cfg es) k) es) = nat k"
proof -
  let ?files = "list_backups cfg es"
  let ?D = "drop (nat k) ?files"
  let ?keep = "take (nat k) ?files"
  have dn: "distinct (map name ?files)" by (rule distinct_names_list_backups[OF d])
  have dD: "distinct (map name ?D)" using dn by (simp add: drop_map[symmetric] distinct_drop)
  have sub: "name ` set ?D \<subseteq> fst ` set es"
    using map_name_list_backups_set[of cfg es] set_drop_subset[of "nat k" ?files] by blast
  have ue: "unlink_each ?D es = filter (\<lambda>e. fst e \<notin> name ` set ?D) es"
    by (rule unlink_each_filter[OF dD sub])
  have split: "map name ?files = map name ?keep @ map name ?D"
    by (metis append_take_drop_id map_append)
  have disj: "set (map name ?keep) \<inter> set (map name ?D) = {}"
    using dn split by (metis distinct_append)
  let ?S = "{n \<in> fst ` set es. is_backup_name cfg n \<and> n \<notin> name ` set ?D}"
  have S_eq: "?S = set (map name ?keep)"
  proof -
    have "set (map name ?files) = set (map name ?keep) \<union> set (map name ?D)"
      using split by (metis set_append)
    moreover have "set (map name ?files) = {n \<in> fst ` set es. is_backup_name cfg n}"
      using map_name_list_backups_set[of cfg es] by simp
    ultimately show ?thesis using disj by auto
  qed
  have "count_backups cfg (unlink_each ?D es) =
        length (filter (\<lambda>n. is_backup_name cfg n \<and> n \<notin> name ` set ?D) (map fst es))"
    by (simp add: ue count_backups_def filter_map comp_def conj_commute)
  also have "\<dots> = card ?S"
  proof -
    have "?S = {n. is_backup_name cfg n \<and> n \<notin> name ` set ?D} \<inter> set (map fst es)"
      by auto
    then show ?thesis
      using distinct_length_filter[OF d, of "\<lambda>n. is_backup_name cfg n \<and> n \<notin> name ` set ?D"]
      by simp
  qed
  also have "\<dots> = length (map name ?keep)"
    using dn S_eq by (metis distinct_card distinct_take take_map)
  also have "\<dots> = nat k"
    using big k by (simp add: length_list_backups)
  finally show ?thesis by (simp add: js_slice_nonneg[OF k])
qed

lemma cleanup_fields [simp]:
  "db_file (cleanupOldBackups cfg fs) = db_file fs"
  "userData (cleanupOldBackups cfg fs) = userData fs"
  "user_files (cleanupOldBackups cfg fs) = user_files fs"
  "unwritable (cleanupOldBackups cfg fs) = unwritable fs"
  by (simp_all add: cleanupOldBackups_def Let_def split: option.splits)

lemma cleanup_small:
  "backup_dir fs = Some es \<Longrightarrow> int (count_backups cfg es) \<le> maxBackups cfg \<Longrightarrow>
   cleanupOldBackups cfg fs = fs"
  by (simp add: cleanupOldBackups_def Let_def length_list_backups)

lemma cleanup_big:
  "backup_dir fs = Some es \<Longrightarrow> maxBackups cfg < int (count_backups cfg es) \<Longrightarrow>
   backup_dir (cleanupOldBackups cfg fs) =
     Some (unlink_each (js_slice (list_backups cfg es) (maxBackups cfg)) es)"
  by (simp add: cleanupOldBackups_def Let_def length_list_backups)

lemma unlink_each_sub:
  "\<exists>N. N \<subseteq> name ` set D \<and> unlink_each D es = filter (\<lambda>e. fst e \<notin> N) es"
proof (induction D arbitrary: es)
  case Nil
  have "unlink_each [] es = filter (\<lambda>e. fst e \<notin> {}) es" by simp
  then show ?case by blast
next
  case (Cons f D)
  show ?case
  proof (cases "name f \<in> fst ` set es")
    case False
    then have "unlink_each (f # D) es = filter (\<lambda>e. fst e \<notin> {}) es"
      by (simp add: unlinkSync_def)
    then show ?thesis by blast
  next
    case True
    let ?es' = "filter (\<lambda>e. fst e \<noteq> name f) es"
    obtain N where N: "N \<subseteq> name ` set D" "unlink_each D ?es' = filter (\<lambda>e. fst e \<notin> N) ?es'"
      using Cons.IH[of ?es'] by blast
    have "unlink_each (f # D) es = filter (\<lambda>e. fst e \<notin> N) ?es'"
      using True N(2) by (simp add: unlinkSync_def)
    also have "\<dots> = filter (\<lambda>e. fst e \<notin> insert (name f) N) es"
      by (auto intro: filter_cong)
    finally have "unlink_each (f # D) es = filter (\<lambda>e. fst e \<notin> insert (name f) N) es" .
    moreover have "insert (name f) N \<subseteq> name ` set (f # D)" using N(1) by auto
    ultimately show ?thesis by blast
  qed
qed

lemma set_js_slice: "set (js_slice xs k) \<subseteq> set xs"
  by (auto simp: js_slice_def dest: in_set_dropD)

lemma cleanup_dir_shape:
  assumes "backup_dir fs = Some es"
  shows "\<exists>N. N \<subseteq> {n \<in> fst ` set es. is_backup_name cfg n} \<and>
             backup_dir (cleanupOldBackups cfg fs) = Some (filter (\<lambda>e. fst e \<notin> N) es)"
proof (cases "maxBackups cfg < int (count_backups cfg es)")
  case False
  then have "cleanupOldBackups cfg fs = fs" using assms by (simp add: cleanup_small)
  then have "backup_dir (cleanupOldBackups cfg fs) = Some (filter (\<lambda>e. fst e \<notin> {}) es)"
    using assms by simp
  moreover have "{} \<subseteq> {n \<in> fst ` set es. is_backup_name cfg n}" by simp
  ultimately show ?thesis by (intro exI[of _ "{}"] conjI)
next
  case True
  let ?D = "js_slice (list_backups cfg es) (maxBackups cfg)"
  obtain N where N: "N \<subseteq> name ` set ?D" "unlink_each ?D es = filter (\<lambda>e. fst e \<notin> N) es"
    using unlink_each_sub by blast
  have "name ` set ?D \<subseteq> name ` set (list_backups cfg es)"
    by (rule image_mono[OF set_js_slice])
  then have im: "name ` set ?D \<subseteq> {n \<in> fst ` set es. is_backup_name cfg n}"
    unfolding map_name_list_backups_set .
  have sub: "N \<subseteq> {n \<in> fst ` set es. is_backup_name cfg n}"
    using N(1) im by (rule subset_trans)
  have "backup_dir (cleanupOldBackups cfg fs) = Some (unlink_each ?D es)"
    by (rule cleanup_big[OF assms True])
  then have "backup_dir (cleanupOldBackups cfg fs) = Some (filter (\<lambda>e. fst e \<notin> N) es)"
    by (simp only: N(2))
  with sub show ?thesis by (intro exI[of _ N] conjI)
qed

lemma cleanup_count:
  assumes "backup_dir fs = Some es" and "distinct (map fst es)" and "0 \<le> maxBackups cfg"
  shows "\<exists>es'. backup_dir (cleanupOldBackups cfg fs) = Some es' \<and> distinct (map fst es') \<and>
            count_backups cfg es' = min (count_backups cfg es) (nat (maxBackups cfg))"
proof (cases "maxBackups cfg < int (count_backups cfg es)")
  case False
  then have "cleanupOldBackups cfg fs = fs" using assms by (simp add: cleanup_small)
  then show ?thesis using assms False by auto
next
  case True
  obtain N where N: "backup_dir (cleanupOldBackups cfg fs) = Some (filter (\<lambda>e. fst e \<notin> N) es)"
    using cleanup_dir_shape[OF assms(1)] by blast
  have c: "count_backups cfg (unlink_each (js_slice (list_backups cfg es) (maxBackups cfg)) es) =
        nat (maxBackups cfg)"
    by (rule count_after_unlink[OF assms(2) assms(3) True])
  have "distinct (map fst (filter (\<lambda>e. fst e \<notin> N) es))"
    using assms(2) by (simp add: distinct_map_filter)
  then show ?thesis
    using cleanup_big[OF assms(1) True] c True N by auto
qed

section \<open>Creating a snapshot\<close>

lemma backupFileName_snapshot_name: "backupFileName cfg t1 t2 = Some (snapshot_name cfg t1 t2)"
  by (simp add: backupFileName_eq snapshot_name_def)

lemma is_backup_snapshot_name: "is_backup_name cfg (snapshot_name cfg t1 t2)"
  by (simp add: is_backup_name_def snapshot_name_def startsWith_def endsWith_def)

lemma backupCount_eq: "backupCount cfg fs = count_backups cfg (entries_of fs)"
  by (simp add: backupCount_def entries_of_def ensureBackupDir_def count_backups_def
      split: option.splits)

lemma createBackup_no_db:
  "db_file fs = None \<Longrightarrow>
   createBackup cfg t1 t2 t3 fs =
     (\<lparr>success = False, message = ''Database file not found'', filePath = None\<rparr>,
      ensureBackupDir fs)"
  by (simp add: createBackup_def Let_def ensureBackupDir_def)

lemma createBackup_with_db:
  "db_file fs = Some f \<Longrightarrow>
   createBackup cfg t1 t2 t3 fs =
     (\<lparr>success = True, message = ''Backup created successfully'',
       filePath = Some (path_join (BACKUP_DIR fs) (snapshot_name cfg t1 t2))\<rparr>,
      cleanupOldBackups cfg
        (fs\<lparr>backup_dir :=
              Some (write_entry (snapshot_name cfg t1 t2) \<lparr>content = content f, mtime = t3\<rparr>
                     (entries_of fs))\<rparr>))"
  by (simp add: createBackup_def Let_def ensureBackupDir_def backupFileName_snapshot_name
      copy_db_to_backup_def entries_of_def split: option.splits)

lemma createBackup_success_iff:
  "success (fst (createBackup cfg t1 t2 t3 fs)) = (db_file fs \<noteq> None)"
  by (cases "db_file fs") (simp_all add: createBackup_no_db createBackup_with_db)

lemma createBackup_count:
  assumes db: "db_file fs = Some f" and ok: "dir_ok fs" and k: "0 \<le> maxBackups cfg"
  shows "\<exists>es'. backup_dir (snd (createBackup cfg t1 t2 t3 fs)) = Some es' \<and>
           distinct (map fst es') \<and>
           count_backups cfg es' =
             min (count_backups cfg
                    (write_entry (snapshot_name cfg t1 t2) \<lparr>content = content f, mtime = t3\<rparr>
                       (entries_of fs)))
                 (nat (maxBackups cfg))"
proof -
  let ?es = "write_entry (snapshot_name cfg t1 t2) \<lparr>content = content f, mtime = t3\<rparr> (entries_of fs)"
  let ?fs = "fs\<lparr>backup_dir := Some ?es\<rparr>"
  have d0: "distinct (map fst (entries_of fs))"
    using ok by (simp add: dir_ok_def entries_of_def split: option.splits)
  have d: "distinct (map fst ?es)" by (rule distinct_write_entry[OF d0])
  have dir: "backup_dir ?fs = Some ?es" by simp
  show ?thesis
    using cleanup_count[OF dir d k] by (simp add: createBackup_with_db[OF db])
qed

lemma snapshot_name_cong:
  "utc_date a1 = utc_date b1 \<Longrightarrow> utc_hours a2 = utc_hours b2 \<Longrightarrow>
   snapshot_name cfg a1 a2 = snapshot_name cfg b1 b2"
  by (simp add: snapshot_name_def iso_date_def)

lemma createBackup_keeps [simp]:
  "db_file (snd (createBackup cfg t1 t2 t3 fs)) = db_file fs"
  "userData (snd (createBackup cfg t1 t2 t3 fs)) = userData fs"
  by (cases "db_file fs"; simp add: createBackup_no_db createBackup_with_db ensureBackupDir_def)+

text \<open>Two clock readings one second apart, for the examples.\<close>

lemmas date_eval = iso_date_def utc_date_def msPerDay_def year_of_def month_of_def day_of_def
  mp_of_def doy_of_def yoe_of_def doe_of_def era_of_def iso_year_def pad4_def pad2_def
  digit_char_def utc_hours_def

lemma snapshot_name_demo1:
  "snapshot_name AppConfig 1705314645123 1705314645123 = ''app-backup_2024-01-15_10.db''"
  by (simp add: snapshot_name_def AppConfig_def date_eval)

lemma snapshot_name_demo2:
  "snapshot_name AppConfig 1705314646123 1705314646123 = ''app-backup_2024-01-15_10.db''"
  by (simp add: snapshot_name_def AppConfig_def date_eval)



text \<open>
  C1. The claim: the time component of the file name has precision down to the second, so
  snapshots taken in different clock-seconds get distinct names. The code keeps only what
  precedes the first \<open>-\<close> of \<open>HH-mm-ss-sssZ\<close>, the hour (\<open>timeStr_of_eq\<close>,
  \<open>backupFileName_eq\<close>). Evaluated at 2024-01-15T10:30:45.123Z and one second later, the
  two names are the same.
\<close>

theorem backupFileName_one_second_apart:
  "backupFileName AppConfig 1705314645123 1705314645123 = Some ''app-backup_2024-01-15_10.db'' \<and>
   backupFileName AppConfig 1705314646123 1705314646123 = Some ''app-backup_2024-01-15_10.db''"
  by (simp add: backupFileName_snapshot_name snapshot_name_demo1 snapshot_name_demo2)

lemma createBackup_count_le_max:
  assumes ok: "dir_ok fs" and k: "0 \<le> maxBackups cfg"
    and succ: "success (fst (createBackup cfg t1 t2 t3 fs))"
  shows "int (backupCount cfg (snd (createBackup cfg t1 t2 t3 fs))) \<le> maxBackups cfg"
proof -
  obtain f where db: "db_file fs = Some f"
    using succ by (auto simp: createBackup_success_iff)
  obtain es' where es': "backup_dir (snd (createBackup cfg t1 t2 t3 fs)) = Some es'"
      "count_backups cfg es' \<le> nat (maxBackups cfg)"
    using createBackup_count[OF db ok k, of t1 t2 t3] by auto
  then show ?thesis using k by (simp add: backupCount_eq entries_of_def)
qed

text \<open>
  C2. The claim: after a successful \<open>createBackup\<close> at most \<open>maxBackups\<close> snapshot files
  exist, and after N > K = \<open>maxBackups\<close> calls with distinct timestamps exactly K remain.
  The bound holds (\<open>createBackup_count_le_max\<close>). The second part fails with the file names of
  C1: with K = 2, three calls at 10:00:00, 10:00:01 and 10:00:02 UTC of 2024-01-15 on an
  empty backup directory leave one snapshot file, not two.
\<close>

theorem three_backups_in_one_hour:
  "backupCount (AppConfig\<lparr>maxBackups := 2\<rparr>)
     (snd (createBackup (AppConfig\<lparr>maxBackups := 2\<rparr>) 1705312802000 1705312802000 1705312802000
       (snd (createBackup (AppConfig\<lparr>maxBackups := 2\<rparr>) 1705312801000 1705312801000 1705312801000
         (snd (createBackup (AppConfig\<lparr>maxBackups := 2\<rparr>) 1705312800000 1705312800000 1705312800000
            demo_fs)))))) = 1"
proof -
  let ?cfg = "AppConfig\<lparr>maxBackups := 2\<rparr>"
  let ?n = "snapshot_name ?cfg 1705312800000 1705312800000"
  have n2: "snapshot_name ?cfg 1705312801000 1705312801000 = ?n"
    by (rule snapshot_name_cong) (simp_all add: date_eval)
  have n3: "snapshot_name ?cfg 1705312802000 1705312802000 = ?n"
    by (rule snapshot_name_cong) (simp_all add: date_eval)
  have isb: "is_backup_name ?cfg ?n" by (rule is_backup_snapshot_name)
  have small: "\<And>f fs. cleanupOldBackups ?cfg (fs\<lparr>backup_dir := Some [(?n, f)]\<rparr>) =
      fs\<lparr>backup_dir := Some [(?n, f)]\<rparr>"
    by (rule cleanup_small[where es = "[(?n, f)]" for f]) (simp_all add: count_backups_def isb)
  have db: "db_file demo_fs = Some \<lparr>content = ''SQLite format 3'', mtime = 0\<rparr>"
    by (simp add: demo_fs_def)
  have e0: "entries_of demo_fs = []" by (simp add: entries_of_def demo_fs_def)
  have c1: "snd (createBackup ?cfg 1705312800000 1705312800000 1705312800000 demo_fs) =
      demo_fs\<lparr>backup_dir := Some [(?n, \<lparr>content = ''SQLite format 3'', mtime = 1705312800000\<rparr>)]\<rparr>"
    by (simp add: createBackup_with_db[OF db] e0 small)
  have c2: "snd (createBackup ?cfg 1705312801000 1705312801000 1705312801000
        (demo_fs\<lparr>backup_dir := Some [(?n, \<lparr>content = ''SQLite format 3'', mtime = 1705312800000\<rparr>)]\<rparr>)) =
      demo_fs\<lparr>backup_dir := Some [(?n, \<lparr>content = ''SQLite format 3'', mtime = 1705312801000\<rparr>)]\<rparr>"
    using small[of _ demo_fs]
    by (subst createBackup_with_db[where f = "\<lparr>content = ''SQLite format 3'', mtime = 0\<rparr>"])
       (simp_all add: db n2 entries_of_def)
  have c3: "snd (createBackup ?cfg 1705312802000 1705312802000 1705312802000
        (demo_fs\<lparr>backup_dir := Some [(?n, \<lparr>content = ''SQLite format 3'', mtime = 1705312801000\<rparr>)]\<rparr>)) =
      demo_fs\<lparr>backup_dir := Some [(?n, \<lparr>content = ''SQLite format 3'', mtime = 1705312802000\<rparr>)]\<rparr>"
    using small[of _ demo_fs]
    by (subst createBackup_with_db[where f = "\<lparr>content = ''SQLite format 3'', mtime = 0\<rparr>"])
       (simp_all add: db n3 entries_of_def)
  show ?thesis
    by (simp only: c1 c2 c3) (simp add: backupCount_eq entries_of_def count_backups_def isb)
qed

text \<open>
  C8. Retention pruning leaves every file of the backup directory whose name does not both
  start with the prefix and end with \<open>.db\<close> in place and unmodified: the entries that do not
  match are the same before and after, in the same order. Nothing is created or changed,
  every entry that disappears was enumerated by the listing of this call, and the database
  file and the files elsewhere are untouched.
\<close>

theorem cleanupOldBackups_keeps_unrelated_files:
  assumes dir: "backup_dir fs = Some es"
  shows "\<exists>es'. backup_dir (cleanupOldBackups cfg fs) = Some es' \<and>
           filter (\<lambda>e. \<not> is_backup_name cfg (fst e)) es' =
             filter (\<lambda>e. \<not> is_backup_name cfg (fst e)) es \<and>
           set es' \<subseteq> set es \<and>
           fst ` (set es - set es') \<subseteq> name ` set (list_backups cfg es) \<and>
           db_file (cleanupOldBackups cfg fs) = db_file fs \<and>
           user_files (cleanupOldBackups cfg fs) = user_files fs"
proof -
  obtain N where N: "N \<subseteq> {n \<in> fst ` set es. is_backup_name cfg n}"
      "backup_dir (cleanupOldBackups cfg fs) = Some (filter (\<lambda>e. fst e \<notin> N) es)"
    using cleanup_dir_shape[OF dir] by blast
  let ?es' = "filter (\<lambda>e. fst e \<notin> N) es"
  have a: "filter (\<lambda>e. \<not> is_backup_name cfg (fst e)) ?es' =
           filter (\<lambda>e. \<not> is_backup_name cfg (fst e)) es"
    using N(1) by (simp only: filter_filter) (rule filter_cong, auto)
  have b: "set ?es' \<subseteq> set es" by simp
  have c: "fst ` (set es - set ?es') \<subseteq> name ` set (list_backups cfg es)"
    using N(1) unfolding map_name_list_backups_set by auto
  show ?thesis
    using N(2) a b c by (intro exI[of _ ?es']) simp
qed

text \<open>
  The theorem of C8 on a directory holding \<open>notes.txt\<close> and two snapshots, with
  \<open>maxBackups = 1\<close>.
\<close>

theorem cleanupOldBackups_keeps_unrelated_files_witness:
  "backup_dir (demo_fs\<lparr>backup_dir := Some demo_dir\<rparr>) = Some demo_dir \<and>
   (\<exists>es'. backup_dir (cleanupOldBackups (AppConfig\<lparr>maxBackups := 1\<rparr>)
              (demo_fs\<lparr>backup_dir := Some demo_dir\<rparr>)) = Some es' \<and>
      filter (\<lambda>e. \<not> is_backup_name (AppConfig\<lparr>maxBackups := 1\<rparr>) (fst e)) es' =
        [(''notes.txt'', \<lparr>content = ''keep me'', mtime = 5\<rparr>)])"
proof -
  have h: "backup_dir (demo_fs\<lparr>backup_dir := Some demo_dir\<rparr>) = Some demo_dir" by simp
  have f: "filter (\<lambda>e. \<not> is_backup_name (AppConfig\<lparr>maxBackups := 1\<rparr>) (fst e)) demo_dir =
      [(''notes.txt'', \<lparr>content = ''keep me'', mtime = 5\<rparr>)]"
    by (simp add: demo_dir_def is_backup_name_def startsWith_def endsWith_def AppConfig_def)
  show ?thesis
    using cleanupOldBackups_keeps_unrelated_files[OF h, of "AppConfig\<lparr>maxBackups := 1\<rparr>"] h f
    by auto
qed

section \<open>The constraints of the schema\<close>

lemma db_ok_init: "db_ok initDatabase"
  by (simp add: db_ok_def initDatabase_def)

lemma db_ok_filter_sessions:
  "db_ok db \<Longrightarrow> db_ok (db\<lparr>auth_sessions := filter P (auth_sessions db)\<rparr>)"
  by (auto simp: db_ok_def list_all_iff distinct_map_filter)

lemma db_ok_map_users:
  assumes "db_ok db" and "\<And>r. u_id (g r) = u_id r"
  shows "db_ok (db\<lparr>auth_user := map g (auth_user db)\<rparr>)"
proof -
  have g: "u_id \<circ> g = u_id" by (rule ext) (simp add: assms(2))
  have m: "map u_id (map g (auth_user db)) = map u_id (auth_user db)"
    by (simp add: g)
  have i: "u_id ` set (map g (auth_user db)) = u_id ` set (auth_user db)"
    using arg_cong[OF m, of set] by (simp only: set_map)
  have a: "list_all (\<lambda>u. u_id u = 1) (map g (auth_user db))"
    using assms(1) by (simp add: db_ok_def list_all_iff assms(2))
  have sel: "auth_user (db\<lparr>auth_user := map g (auth_user db)\<rparr>) = map g (auth_user db)"
      "auth_sessions (db\<lparr>auth_user := map g (auth_user db)\<rparr>) = auth_sessions db"
    by simp_all
  show ?thesis
    using assms(1) a unfolding db_ok_def sel m i by blast
qed

lemma db_ok_insert_user:
  assumes "db_ok db" and "insert_auth_user r (auth_user db) = Inr tbl"
  shows "db_ok (db\<lparr>auth_user := tbl\<rparr>)"
  using assms unfolding db_ok_def insert_auth_user_def
  by (auto simp: list_all_iff split: if_splits)

lemma db_ok_insert_session:
  assumes "db_ok db" and "insert_auth_session r db = Inr db'"
  shows "db_ok db'"
  using assms unfolding db_ok_def insert_auth_session_def
  by (auto simp: list_all_iff split: if_splits)

lemma db_ok_delete_session: "db_ok db \<Longrightarrow> db_ok (delete_session tok db)"
  unfolding delete_session_def by (rule db_ok_filter_sessions)

lemma db_ok_delete_user_sessions: "db_ok db \<Longrightarrow> db_ok (delete_user_sessions db)"
  unfolding delete_user_sessions_def by (rule db_ok_filter_sessions)

lemma db_ok_createUser: "db_ok db \<Longrightarrow> db_ok (snd (createUser bc data salt now db))"
  by (auto simp: createUser_def Let_def db_ok_insert_user split: sum.splits)

lemma db_ok_login: 
  assumes "db_ok db"
  shows "db_ok (snd (login bc cfg data uuid now db))"
proof -
  let ?db1 = "db\<lparr>auth_user :=
       map (\<lambda>r. if u_id r = 1 then r\<lparr>last_login := Some (sqlite_datetime now)\<rparr> else r)
         (auth_user db)\<rparr>"
  have ok1: "db_ok ?db1" by (rule db_ok_map_users[OF assms]) simp
  have ok2: "db_ok (delete_user_sessions ?db1)" by (rule db_ok_delete_user_sessions[OF ok1])
  show ?thesis
    using assms ok1 ok2
    by (auto simp: login_def Let_def split: option.splits sum.splits
             dest: db_ok_insert_session[OF ok2])
qed

lemma db_ok_logout: "db_ok db \<Longrightarrow> db_ok (snd (logout tok db))"
  by (auto simp: logout_def db_ok_delete_session split: option.splits)

lemma db_ok_validateSession: "db_ok db \<Longrightarrow> db_ok (snd (validateSession tok now db))"
  by (auto simp: validateSession_def db_ok_delete_session split: option.splits)

lemma db_ok_changePassword:
  assumes "db_ok db"
  shows "db_ok (snd (changePassword bc data salt db))"
proof -
  have "\<And>h. db_ok (delete_user_sessions (db\<lparr>auth_user :=
       map (\<lambda>r. if u_id r = 1 then r\<lparr>password_hash := h\<rparr> else r) (auth_user db)\<rparr>))"
    by (rule db_ok_delete_user_sessions, rule db_ok_map_users[OF assms]) simp
  then show ?thesis
    using assms by (auto simp: changePassword_def Let_def split: option.splits)
qed

lemma db_ok_cleanupExpiredSessions: "db_ok db \<Longrightarrow> db_ok (cleanupExpiredSessions now db)"
  unfolding cleanupExpiredSessions_def by (rule db_ok_filter_sessions)

lemma db_ok_step: "db_ok db \<Longrightarrow> db_ok (auth_step bc cfg op db)"
  by (cases op)
     (simp_all add: db_ok_createUser db_ok_login db_ok_logout db_ok_validateSession
        db_ok_changePassword db_ok_cleanupExpiredSessions)

lemma db_ok_run: "db_ok db \<Longrightarrow> db_ok (auth_run bc cfg ops db)"
  unfolding auth_run_def by (induction ops arbitrary: db) (simp_all add: db_ok_step)

lemma db_ok_at_most_one_user:
  assumes "db_ok db"
  shows "length (auth_user db) \<le> 1"
proof -
  have "distinct (map u_id (auth_user db))" using assms by (simp add: db_ok_def)
  then have "card (set (map u_id (auth_user db))) = length (map u_id (auth_user db))"
    by (rule distinct_card)
  then have "length (auth_user db) = card (set (map u_id (auth_user db)))"
    by simp
  also have "\<dots> \<le> card {1::int}"
    using assms by (intro card_mono) (auto simp: db_ok_def list_all_iff)
  finally show ?thesis by simp
qed

lemma db_ok_select_user:
  assumes "db_ok db" and "auth_user db \<noteq> []"
  shows "select_user db \<noteq> None"
proof -
  obtain u us where "auth_user db = u # us" using assms(2) by (cases "auth_user db") auto
  moreover have "u_id u = 1" using assms(1) calculation by (simp add: db_ok_def)
  ultimately show ?thesis by (simp add: select_user_def)
qed

text \<open>
  C6. After any sequence of the exported operations on the database that \<open>initDatabase\<close>
  creates, the table \<open>auth_user\<close> holds at most one row; and when it holds a row, every
  \<open>createUser\<close> call, whatever its arguments, fails with the message \<open>User already exists\<close>,
  changes nothing and leaves exactly one row.
\<close>

theorem single_user_invariant:
  "length (auth_user (auth_run bc cfg ops initDatabase)) \<le> 1 \<and>
   (auth_user (auth_run bc cfg ops initDatabase) \<noteq> [] \<longrightarrow>
      createUser bc data salt now (auth_run bc cfg ops initDatabase) =
        (\<lparr>success = False, message = ''User already exists''\<rparr>, auth_run bc cfg ops initDatabase) \<and>
      length (auth_user (snd (createUser bc data salt now (auth_run bc cfg ops initDatabase)))) = 1)"
proof -
  let ?db = "auth_run bc cfg ops initDatabase"
  have ok: "db_ok ?db" by (rule db_ok_run[OF db_ok_init])
  have le: "length (auth_user ?db) \<le> 1" by (rule db_ok_at_most_one_user[OF ok])
  {
    assume ne: "auth_user ?db \<noteq> []"
    have "isSetupComplete ?db" using db_ok_select_user[OF ok ne] by (simp add: isSetupComplete_def)
    then have c: "createUser bc data salt now ?db =
        (\<lparr>success = False, message = ''User already exists''\<rparr>, ?db)"
      by (simp add: createUser_def)
    have "length (auth_user ?db) = 1" using le ne by (cases "auth_user ?db") auto
    with c have "createUser bc data salt now ?db =
        (\<lparr>success = False, message = ''User already exists''\<rparr>, ?db) \<and>
      length (auth_user (snd (createUser bc data salt now ?db))) = 1" by simp
  }
  with le show ?thesis by blast
qed

section \<open>Sessions and the single user\<close>

lemma lower_alice: "trim (toLowerCase '' Alice'') = ''alice''"
  by (simp add: trim_def toLowerCase_def lower_char_def is_space_def char_of_eq_iff)

lemma sqlite_datetime_demo: "sqlite_datetime 1705314645123 = ''2024-01-15 10:30:45''"
  by (simp add: sqlite_datetime_def date_eval utc_minutes_def utc_seconds_def)

lemma demo_db_created:
  "auth_run demo_bcrypt AppConfig
     [CreateUser \<lparr>sd_username = '' Alice'', sd_password = ''secret1''\<rparr> ''salt'' 1705314645123]
     initDatabase = demo_db"
  by (simp add: auth_run_def createUser_def isSetupComplete_def select_user_def initDatabase_def
      insert_auth_user_def lower_alice sqlite_datetime_demo demo_bcrypt_def demo_db_def)

text \<open>The theorem of C6 after one provisioning, for a second one with other arguments.\<close>

theorem single_user_invariant_witness:
  "auth_user (auth_run demo_bcrypt AppConfig
     [CreateUser \<lparr>sd_username = '' Alice'', sd_password = ''secret1''\<rparr> ''salt'' 1705314645123]
     initDatabase) \<noteq> [] \<and>
   createUser demo_bcrypt \<lparr>sd_username = ''bob'', sd_password = ''hunter22''\<rparr> ''pepper'' 1705314646123
     demo_db = (\<lparr>success = False, message = ''User already exists''\<rparr>, demo_db) \<and>
   length (auth_user (snd (createUser demo_bcrypt
     \<lparr>sd_username = ''bob'', sd_password = ''hunter22''\<rparr> ''pepper'' 1705314646123 demo_db))) = 1"
proof -
  have ne: "auth_user (auth_run demo_bcrypt AppConfig
     [CreateUser \<lparr>sd_username = '' Alice'', sd_password = ''secret1''\<rparr> ''salt'' 1705314645123]
     initDatabase) \<noteq> []"
    by (simp add: demo_db_created demo_db_def)
  show ?thesis
    using single_user_invariant[of demo_bcrypt AppConfig
        "[CreateUser \<lparr>sd_username = '' Alice'', sd_password = ''secret1''\<rparr> ''salt'' 1705314645123]"
        "\<lparr>sd_username = ''bob'', sd_password = ''hunter22''\<rparr>" "''pepper''" 1705314646123] ne
    by (simp only: demo_db_created) blast
qed

lemma set_session_rows:
  "set (session_rows tok db) =
     {(s, u). s \<in> set (auth_sessions db) \<and> s_id s = tok \<and> u \<in> set (auth_user db) \<and>
              s_user_id s = u_id u}"
  by (auto simp: session_rows_def)

lemma select_session_None_iff:
  "select_session tok db = None \<longleftrightarrow>
     \<not> (\<exists>s \<in> set (auth_sessions db). s_id s = tok \<and>
          (\<exists>u \<in> set (auth_user db). s_user_id s = u_id u))"
proof -
  have "select_session tok db = None \<longleftrightarrow> session_rows tok db = []"
    by (simp add: select_session_def split: list.splits)
  also have "\<dots> \<longleftrightarrow> set (session_rows tok db) = {}"
    by simp
  also have "\<dots> \<longleftrightarrow> \<not> (\<exists>s \<in> set (auth_sessions db). s_id s = tok \<and>
          (\<exists>u \<in> set (auth_user db). s_user_id s = u_id u))"
    unfolding set_session_rows by auto
  finally show ?thesis .
qed

lemma select_session_SomeD:
  assumes "select_session tok db = Some (s, u)"
  shows "s \<in> set (auth_sessions db) \<and> s_id s = tok \<and> u \<in> set (auth_user db) \<and>
         s_user_id s = u_id u"
proof -
  have "(s, u) \<in> set (session_rows tok db)"
    using assms by (auto simp: select_session_def split: list.splits)
  then show ?thesis unfolding set_session_rows by simp
qed

lemma select_session_stored:
  assumes ok: "db_ok db" and s: "s \<in> set (auth_sessions db)"
  shows "\<exists>u. select_session (s_id s) db = Some (s, u)"
proof -
  have "\<exists>u \<in> set (auth_user db). s_user_id s = u_id u"
    using ok s by (auto simp: db_ok_def list_all_iff)
  then have "select_session (s_id s) db \<noteq> None"
    using s by (auto simp: select_session_None_iff)
  then obtain s' u where r: "select_session (s_id s) db = Some (s', u)" by auto
  have "s' \<in> set (auth_sessions db)" "s_id s' = s_id s"
    using select_session_SomeD[OF r] by simp_all
  moreover have "inj_on s_id (set (auth_sessions db))"
    using ok by (simp add: db_ok_def distinct_map)
  ultimately have "s' = s" using s by (auto dest: inj_onD)
  with r show ?thesis by blast
qed

lemma select_session_deleted: "select_session tok (delete_session tok db) = None"
  by (simp add: select_session_None_iff delete_session_def)

text \<open>
  C4, as the code has it. For a stored session whose \<open>expires_at\<close> is before now,
  \<open>validateSession\<close> returns invalid and deletes the row; a second call on the same token,
  at any time, returns invalid again and changes nothing. The code tests
  \<open>expiresAt < new Date()\<close>: a session is still valid at the instant \<open>expires_at\<close> itself.
\<close>

theorem validateSession_expired:
  assumes ok: "db_ok db" and s: "s \<in> set (auth_sessions db)" and exp: "expires_at s < now"
  shows "validateSession (s_id s) now db =
           (\<lparr>valid = False, v_user = None\<rparr>, delete_session (s_id s) db) \<and>
         s \<notin> set (auth_sessions (delete_session (s_id s) db)) \<and>
         validateSession (s_id s) now' (delete_session (s_id s) db) =
           (\<lparr>valid = False, v_user = None\<rparr>, delete_session (s_id s) db)"
proof -
  obtain u where r: "select_session (s_id s) db = Some (s, u)"
    using select_session_stored[OF ok s] by blast
  have a: "validateSession (s_id s) now db =
      (\<lparr>valid = False, v_user = None\<rparr>, delete_session (s_id s) db)"
    using exp by (simp add: validateSession_def r)
  have b: "s \<notin> set (auth_sessions (delete_session (s_id s) db))"
    by (simp add: delete_session_def)
  have c: "validateSession (s_id s) now' (delete_session (s_id s) db) =
      (\<lparr>valid = False, v_user = None\<rparr>, delete_session (s_id s) db)"
    by (simp add: validateSession_def select_session_deleted)
  from a b c show ?thesis by simp
qed

lemma db_ok_demo_session_db: "db_ok demo_session_db"
  by (simp add: db_ok_def demo_session_db_def)

text \<open>The theorem of C4 on a session that expired one millisecond ago.\<close>

theorem validateSession_expired_witness:
  "validateSession ''tok'' 1707906646124 demo_session_db =
     (\<lparr>valid = False, v_user = None\<rparr>, demo_session_db\<lparr>auth_sessions := []\<rparr>) \<and>
   validateSession ''tok'' 1707906646124 (demo_session_db\<lparr>auth_sessions := []\<rparr>) =
     (\<lparr>valid = False, v_user = None\<rparr>, demo_session_db\<lparr>auth_sessions := []\<rparr>)"
proof -
  let ?s = "\<lparr>s_id = ''tok'', s_user_id = 1, s_created_at = ''2024-01-15 10:30:46'',
             expires_at = 1707906646123\<rparr>"
  have s: "?s \<in> set (auth_sessions demo_session_db)" by (simp add: demo_session_db_def)
  have e: "expires_at ?s < 1707906646124" by simp
  have d: "delete_session ''tok'' demo_session_db = demo_session_db\<lparr>auth_sessions := []\<rparr>"
    by (simp add: delete_session_def demo_session_db_def)
  show ?thesis
    using validateSession_expired[OF db_ok_demo_session_db s e, of 1707906646124]
    by (simp add: d)
qed

text \<open>
  C4 as stated, with \<open>expires_at \<le> now\<close>, fails at \<open>expires_at = now\<close>: the session is
  reported valid and its row stays.
\<close>

theorem validateSession_at_expiry_instant:
  "expires_at (hd (auth_sessions demo_session_db)) \<le> 1707906646123 \<and>
   validateSession ''tok'' 1707906646123 demo_session_db =
     (\<lparr>valid = True,
       v_user = Some \<lparr>au_id = 1, au_username = ''alice'', au_created_at = ''2024-01-15 10:30:45'',
                      au_last_login = Some ''2024-01-15 10:30:46''\<rparr>\<rparr>,
      demo_session_db)"
  by (simp add: validateSession_def select_session_def session_rows_def demo_session_db_def)

text \<open>
  C5. A successful \<open>changePassword\<close> deletes every session row, so that no token is valid
  afterwards, whatever it was before.
\<close>

theorem changePassword_invalidates_sessions:
  assumes ok: "db_ok db" and cp: "changePassword bc data salt db = (r, db')" and succ: "success r"
  shows "auth_sessions db' = [] \<and>
         validateSession tok now db' = (\<lparr>valid = False, v_user = None\<rparr>, db')"
proof -
  have ids: "\<forall>s \<in> set (auth_sessions db). s_user_id s = 1"
    using ok by (auto simp: db_ok_def list_all_iff)
  have "auth_sessions (snd (changePassword bc data salt db)) = []"
    if "success (fst (changePassword bc data salt db))"
    using that ids
    by (auto simp: changePassword_def Let_def delete_user_sessions_def filter_empty_conv
             split: option.splits if_splits)
  then have e: "auth_sessions db' = []" using cp succ by simp
  then have "select_session tok db' = None" by (simp add: select_session_None_iff)
  then show ?thesis using e by (simp add: validateSession_def)
qed

text \<open>
  The theorem of C5 on a database with one live session: the token is valid before the
  password change and invalid after it.
\<close>

theorem changePassword_invalidates_sessions_witness:
  "valid (fst (validateSession ''tok'' 1705314650000 demo_session_db)) \<and>
   success (fst (changePassword demo_bcrypt
      \<lparr>currentPassword = ''secret1'', newPassword = ''newpass1''\<rparr> ''pepper'' demo_session_db)) \<and>
   \<not> valid (fst (validateSession ''tok'' 1705314650000
      (snd (changePassword demo_bcrypt
         \<lparr>currentPassword = ''secret1'', newPassword = ''newpass1''\<rparr> ''pepper'' demo_session_db))))"
proof -
  have v: "valid (fst (validateSession ''tok'' 1705314650000 demo_session_db))"
    by (simp add: validateSession_def select_session_def session_rows_def demo_session_db_def)
  have s: "success (fst (changePassword demo_bcrypt
      \<lparr>currentPassword = ''secret1'', newPassword = ''newpass1''\<rparr> ''pepper'' demo_session_db))"
    by (simp add: changePassword_def select_user_def demo_session_db_def demo_bcrypt_def)
  show ?thesis
    using changePassword_invalidates_sessions[OF db_ok_demo_session_db prod.collapse[symmetric] s,
        of "''tok''" 1705314650000] v s
    by simp
qed

section \<open>Provisioning and login\<close>

lemma lower_char_idem: "lower_char (lower_char c) = lower_char c"
  by (auto simp: lower_char_def Let_def)

lemma toLowerCase_idem: "toLowerCase (toLowerCase s) = toLowerCase s"
  by (simp add: toLowerCase_def lower_char_idem)

lemma set_trim: "set (trim s) \<subseteq> set s"
proof -
  have "set (trim s) = set (dropWhile is_space (rev (dropWhile is_space s)))"
    by (simp add: trim_def)
  also have "\<dots> \<subseteq> set (rev (dropWhile is_space s))" by (rule set_dropWhileD[THEN subsetI])
  also have "\<dots> \<subseteq> set s" using set_dropWhileD[of _ is_space s] by auto
  finally show ?thesis .
qed

lemma toLowerCase_trim_lower: "toLowerCase (trim (toLowerCase s)) = trim (toLowerCase s)"
proof -
  have "\<forall>c \<in> set (trim (toLowerCase s)). lower_char c = c"
    using set_trim[of "toLowerCase s"] by (auto simp: toLowerCase_def lower_char_idem)
  then show ?thesis
    unfolding toLowerCase_def[of "trim _"] by (simp add: map_idI)
qed

lemma createUser_successD:
  assumes "success (fst (createUser bc data salt now db))"
  shows "select_user db = None \<and> 3 \<le> length (sd_username data) \<and> 6 \<le> length (sd_password data) \<and>
         snd (createUser bc data salt now db) =
           db\<lparr>auth_user := auth_user db @
                 [\<lparr>u_id = 1, username = trim (toLowerCase (sd_username data)),
                   password_hash = bc_hash bc salt (sd_password data),
                   created_at = sqlite_datetime now, last_login = None\<rparr>]\<rparr>"
  using assms
  by (auto simp: createUser_def Let_def isSetupComplete_def insert_auth_user_def
           split: if_splits sum.splits)

lemma db_ok_no_user:
  assumes "db_ok db" and "select_user db = None"
  shows "auth_user db = [] \<and> auth_sessions db = []"
proof -
  have u: "auth_user db = []" using db_ok_select_user[OF assms(1)] assms(2) by blast
  have "list_all (\<lambda>s. False) (auth_sessions db)"
    using assms(1) by (simp add: db_ok_def u)
  then have "auth_sessions db = []" by (cases "auth_sessions db") simp_all
  with u show ?thesis by simp
qed

lemma select_user_SomeD:
  "select_user db = Some u \<Longrightarrow> u \<in> set (auth_user db) \<and> u_id u = 1"
  by (auto simp: select_user_def find_Some_iff)

lemma login_success:
  assumes sel: "select_user db = Some u"
    and cmp: "bc_compare bc (ld_password data) (password_hash u)"
    and nm: "toLowerCase (username u) = trim (toLowerCase (ld_username data))"
    and ss: "\<forall>s \<in> set (auth_sessions db). s_user_id s = 1"
  shows "fst (login bc cfg data uuid now db) =
           \<lparr>success = True, message = ''Login successful'',
            sessionToken = (if rememberMe data \<and> rememberMeEnabled cfg then Some uuid else None),
            user = Some \<lparr>au_id = u_id u, au_username = username u,
                         au_created_at = created_at u, au_last_login = last_login u\<rparr>\<rparr>"
proof (cases "rememberMe data \<and> rememberMeEnabled cfg")
  case False
  then show ?thesis using cmp nm by (auto simp: login_def sel Let_def)
next
  case True
  let ?db1 = "db\<lparr>auth_user :=
       map (\<lambda>r. if u_id r = 1 then r\<lparr>last_login := Some (sqlite_datetime now)\<rparr> else r)
         (auth_user db)\<rparr>"
  let ?sr = "\<lparr>s_id = uuid, s_user_id = 1, s_created_at = sqlite_datetime now,
             expires_at = now + sessionExpiryDays cfg * msPerDay\<rparr>"
  have e: "auth_sessions (delete_user_sessions ?db1) = []"
    using ss by (simp add: delete_user_sessions_def filter_empty_conv)
  have "u_id u \<in> u_id ` set (auth_user db)" using select_user_SomeD[OF sel] by blast
  then have "1 \<in> u_id ` set (auth_user db)" using select_user_SomeD[OF sel] by simp
  moreover have "u_id ` set (auth_user (delete_user_sessions ?db1)) = u_id ` set (auth_user db)"
  proof -
    have g: "\<And>r. u_id (if u_id r = 1 then r\<lparr>last_login := Some (sqlite_datetime now)\<rparr> else r) =
        u_id r" by simp
    have "map u_id (auth_user (delete_user_sessions ?db1)) = map u_id (auth_user db)"
      by (simp add: delete_user_sessions_def comp_def g)
    from arg_cong[OF this, of set] show ?thesis by (simp only: set_map)
  qed
  ultimately have fk: "1 \<in> u_id ` set (auth_user (delete_user_sessions ?db1))" by simp
  have ins: "insert_auth_session ?sr (delete_user_sessions ?db1) =
      Inr ((delete_user_sessions ?db1)\<lparr>auth_sessions := [?sr]\<rparr>)"
    using fk by (simp add: insert_auth_session_def e)
  show ?thesis
    using True cmp nm by (simp add: login_def sel Let_def ins)
qed

text \<open>
  C7. When \<open>createUser\<close> accepts a pair (username, password), a login that follows at once
  with the same password and a username that is the same after lowercasing and trimming
  (so also one that differs by letter case or surrounding whitespace) succeeds, and the
  identity it returns is that of the stored row: id 1, the normalized username, the
  creation time, and no earlier login. \<open>bcrypt.compare\<close> is assumed to accept the password
  a hash was made from.
\<close>

theorem login_after_createUser:
  assumes hash: "\<forall>salt pw. bc_compare bc pw (bc_hash bc salt pw)"
    and ok: "db_ok db"
    and cu: "createUser bc \<lparr>sd_username = u, sd_password = p\<rparr> salt now db = (r, db')"
    and succ: "success r"
    and same: "trim (toLowerCase u') = trim (toLowerCase u)"
  shows "select_user db' =
           Some \<lparr>u_id = 1, username = trim (toLowerCase u), password_hash = bc_hash bc salt p,
                 created_at = sqlite_datetime now, last_login = None\<rparr> \<and>
         fst (login bc cfg \<lparr>ld_username = u', ld_password = p, rememberMe = rm\<rparr> uuid now' db') =
           \<lparr>success = True, message = ''Login successful'',
            sessionToken = (if rm \<and> rememberMeEnabled cfg then Some uuid else None),
            user = Some \<lparr>au_id = 1, au_username = trim (toLowerCase u),
                         au_created_at = sqlite_datetime now, au_last_login = None\<rparr>\<rparr>"
proof -
  let ?row = "\<lparr>u_id = 1, username = trim (toLowerCase u), password_hash = bc_hash bc salt p,
               created_at = sqlite_datetime now, last_login = None\<rparr>"
  have s: "success (fst (createUser bc \<lparr>sd_username = u, sd_password = p\<rparr> salt now db))"
    using cu succ by simp
  have none: "select_user db = None" using createUser_successD[OF s] by simp
  have empty: "auth_user db = []" "auth_sessions db = []"
    using db_ok_no_user[OF ok none] by simp_all
  have "db' = snd (createUser bc \<lparr>sd_username = u, sd_password = p\<rparr> salt now db)"
    using cu by simp
  then have db': "db' = db\<lparr>auth_user := [?row]\<rparr>"
    using createUser_successD[OF s] empty by simp
  have sel: "select_user db' = Some ?row" by (simp add: db' select_user_def)
  have cmp: "bc_compare bc p (password_hash ?row)" using hash by simp
  have name: "toLowerCase (username ?row) = trim (toLowerCase u')"
    by (simp add: toLowerCase_trim_lower same)
  have ss: "\<forall>s \<in> set (auth_sessions db'). s_user_id s = 1" by (simp add: db' empty)
  have "fst (login bc cfg \<lparr>ld_username = u', ld_password = p, rememberMe = rm\<rparr> uuid now' db') =
           \<lparr>success = True, message = ''Login successful'',
            sessionToken = (if rm \<and> rememberMeEnabled cfg then Some uuid else None),
            user = Some \<lparr>au_id = 1, au_username = trim (toLowerCase u),
                         au_created_at = sqlite_datetime now, au_last_login = None\<rparr>\<rparr>"
    using login_success[OF sel, of bc "\<lparr>ld_username = u', ld_password = p, rememberMe = rm\<rparr>"
        cfg uuid now'] cmp name ss
    by simp
  with sel show ?thesis by simp
qed

text \<open>
  The theorem of C7 for the pair (\<open>" Alice"\<close>, \<open>"secret1"\<close>), with a login as
  \<open>"ALICE  "\<close> that asks to be remembered.
\<close>

theorem login_after_createUser_witness:
  "success (fst (createUser demo_bcrypt \<lparr>sd_username = '' Alice'', sd_password = ''secret1''\<rparr>
      ''salt'' 1705314645123 initDatabase)) \<and>
   fst (login demo_bcrypt AppConfig
          \<lparr>ld_username = ''ALICE  '', ld_password = ''secret1'', rememberMe = True\<rparr>
          ''tok'' 1705314646123
          (snd (createUser demo_bcrypt \<lparr>sd_username = '' Alice'', sd_password = ''secret1''\<rparr>
             ''salt'' 1705314645123 initDatabase))) =
     \<lparr>success = True, message = ''Login successful'', sessionToken = Some ''tok'',
      user = Some \<lparr>au_id = 1, au_username = ''alice'',
                   au_created_at = ''2024-01-15 10:30:45'', au_last_login = None\<rparr>\<rparr>"
proof -
  have h: "\<forall>salt pw. bc_compare demo_bcrypt pw (bc_hash demo_bcrypt salt pw)"
    by (simp add: demo_bcrypt_def)
  have s: "success (fst (createUser demo_bcrypt \<lparr>sd_username = '' Alice'', sd_password = ''secret1''\<rparr>
      ''salt'' 1705314645123 initDatabase))"
    by (simp add: createUser_def isSetupComplete_def select_user_def initDatabase_def
        insert_auth_user_def)
  have l: "trim (toLowerCase ''ALICE  '') = trim (toLowerCase '' Alice'')"
    by (simp add: trim_def toLowerCase_def lower_char_def is_space_def char_of_eq_iff)
  show ?thesis
    using login_after_createUser[OF h db_ok_init prod.collapse[symmetric] s l,
        of AppConfig True "''tok''" 1705314646123] s
    by (simp add: lower_alice sqlite_datetime_demo AppConfig_def)
qed

text \<open>
  C3, as the code has it. For a provisioned user, a login whose hash comparison fails
  returns the failure \<open>Invalid password\<close>, and a login whose password is right but whose
  username does not match returns the failure \<open>Invalid username\<close>. Both have
  \<open>success = false\<close>, no session token and no user, and change nothing; they differ in
  the message. The password is checked first, and every other login succeeds.
\<close>

theorem login_failure_kinds:
  assumes ok: "db_ok db" and sel: "select_user db = Some u"
  shows "(\<not> bc_compare bc (ld_password data) (password_hash u) \<longrightarrow>
            login bc cfg data uuid now db =
              (\<lparr>success = False, message = ''Invalid password'', sessionToken = None, user = None\<rparr>,
               db)) \<and>
         (bc_compare bc (ld_password data) (password_hash u) \<and>
          toLowerCase (username u) \<noteq> trim (toLowerCase (ld_username data)) \<longrightarrow>
            login bc cfg data uuid now db =
              (\<lparr>success = False, message = ''Invalid username'', sessionToken = None, user = None\<rparr>,
               db)) \<and>
         (bc_compare bc (ld_password data) (password_hash u) \<and>
          toLowerCase (username u) = trim (toLowerCase (ld_username data)) \<longrightarrow>
            success (fst (login bc cfg data uuid now db)))"
proof -
  have wrong_password: "login bc cfg data uuid now db =
      (\<lparr>success = False, message = ''Invalid password'', sessionToken = None, user = None\<rparr>, db)"
    if "\<not> bc_compare bc (ld_password data) (password_hash u)"
    using that by (simp add: login_def sel login_failure_def)
  have wrong_username: "login bc cfg data uuid now db =
      (\<lparr>success = False, message = ''Invalid username'', sessionToken = None, user = None\<rparr>, db)"
    if "bc_compare bc (ld_password data) (password_hash u)"
      and "toLowerCase (username u) \<noteq> trim (toLowerCase (ld_username data))"
    using that by (simp add: login_def sel login_failure_def)
  have ids: "\<forall>s \<in> set (auth_sessions db). s_user_id s = 1"
    using ok by (auto simp: db_ok_def list_all_iff)
  have accepted: "success (fst (login bc cfg data uuid now db))"
    if "bc_compare bc (ld_password data) (password_hash u)"
      and "toLowerCase (username u) = trim (toLowerCase (ld_username data))"
    using login_success[OF sel that ids, of cfg uuid now] by simp
  from wrong_password wrong_username accepted show ?thesis by blast
qed

lemma db_ok_demo_db: "db_ok demo_db"
  by (simp add: db_ok_def demo_db_def)

lemma select_user_demo_db:
  "select_user demo_db =
     Some \<lparr>u_id = 1, username = ''alice'', password_hash = ''saltsecret1'',
           created_at = ''2024-01-15 10:30:45'', last_login = None\<rparr>"
  by (simp add: select_user_def demo_db_def)

text \<open>The theorem of C3 for a wrong password and for a wrong username.\<close>

theorem login_failure_kinds_witness:
  "login demo_bcrypt AppConfig
     \<lparr>ld_username = ''alice'', ld_password = ''letmein'', rememberMe = False\<rparr> ''tok''
     1705314646123 demo_db =
     (\<lparr>success = False, message = ''Invalid password'', sessionToken = None, user = None\<rparr>,
      demo_db) \<and>
   login demo_bcrypt AppConfig
     \<lparr>ld_username = ''mallory'', ld_password = ''secret1'', rememberMe = False\<rparr> ''tok''
     1705314646123 demo_db =
     (\<lparr>success = False, message = ''Invalid username'', sessionToken = None, user = None\<rparr>,
      demo_db)"
proof -
  have a: "\<not> bc_compare demo_bcrypt ''letmein'' ''saltsecret1''"
    by (simp add: demo_bcrypt_def)
  have b: "bc_compare demo_bcrypt ''secret1'' ''saltsecret1''"
    by (simp add: demo_bcrypt_def)
  have c: "toLowerCase ''alice'' \<noteq> trim (toLowerCase ''mallory'')"
    by (simp add: trim_def toLowerCase_def lower_char_def is_space_def char_of_eq_iff)
  show ?thesis
    using login_failure_kinds[OF db_ok_demo_db select_user_demo_db, of demo_bcrypt
        "\<lparr>ld_username = ''alice'', ld_password = ''letmein'', rememberMe = False\<rparr>"
        AppConfig "''tok''" 1705314646123]
      login_failure_kinds[OF db_ok_demo_db select_user_demo_db, of demo_bcrypt
        "\<lparr>ld_username = ''mallory'', ld_password = ''secret1'', rememberMe = False\<rparr>"
        AppConfig "''tok''" 1705314646123]
      a b c
    by simp
qed

text \<open>
  C3 as stated fails: with the right password and another username the caller sees a
  result different from the one for a wrong password.
\<close>

theorem login_failures_distinguishable:
  "fst (login demo_bcrypt AppConfig
     \<lparr>ld_username = ''bob'', ld_password = ''wrong-password'', rememberMe = False\<rparr> ''tok''
     1705314646123 demo_db) \<noteq>
   fst (login demo_bcrypt AppConfig
     \<lparr>ld_username = ''bob'', ld_password = ''secret1'', rememberMe = False\<rparr> ''tok''
     1705314646123 demo_db)"
proof -
  have c: "toLowerCase ''alice'' \<noteq> trim (toLowerCase ''bob'')"
    by (simp add: trim_def toLowerCase_def lower_char_def is_space_def char_of_eq_iff)
  show ?thesis
    using c by (simp add: login_def select_user_demo_db login_failure_def demo_bcrypt_def)
qed

section \<open>Manual backup\<close>

text \<open>
  C9, as the code has it. When the save dialog is cancelled (or yields no path),
  \<open>createManualBackup\<close> returns \<open>{ success: false, message: 'Backup cancelled' }\<close> and
  writes nothing. The result has the fields of a failure, with \<open>success = false\<close>; what
  sets it apart is the message, which no other outcome carries: a call whose message is
  \<open>Backup cancelled\<close> was cancelled and left the file system as it was.
\<close>

theorem createManualBackup_cancelled:
  "(db_file fs \<noteq> None \<and> (canceled result \<or> chosen_path result = []) \<longrightarrow>
      createManualBackup cfg t1 t2 (Inr result) t3 fs =
        (\<lparr>success = False, message = ''Backup cancelled''\<rparr>, fs)) \<and>
   (message (fst (createManualBackup cfg t1 t2 dialog t3 fs)) = ''Backup cancelled'' \<longrightarrow>
      (\<exists>r. dialog = Inr r \<and> (canceled r \<or> chosen_path r = [])) \<and>
      snd (createManualBackup cfg t1 t2 dialog t3 fs) = fs)"
proof -
  have a: "db_file fs \<noteq> None \<and> (canceled result \<or> chosen_path result = []) \<longrightarrow>
      createManualBackup cfg t1 t2 (Inr result) t3 fs =
        (\<lparr>success = False, message = ''Backup cancelled''\<rparr>, fs)"
    by (auto simp: createManualBackup_def backupFileName_snapshot_name)
  have b: "message (fst (createManualBackup cfg t1 t2 dialog t3 fs)) = ''Backup cancelled'' \<longrightarrow>
      (\<exists>r. dialog = Inr r \<and> (canceled r \<or> chosen_path r = [])) \<and>
      snd (createManualBackup cfg t1 t2 dialog t3 fs) = fs"
    by (auto simp: createManualBackup_def backupFileName_snapshot_name
             split: sum.splits if_splits)
  from a b show ?thesis by (rule conjI)
qed

text \<open>The theorem of C9 for a cancelled dialog.\<close>

theorem createManualBackup_cancelled_witness:
  "db_file demo_fs \<noteq> None \<and>
   createManualBackup AppConfig 1705314645123 1705314645123
     (Inr \<lparr>canceled = True, chosen_path = []\<rparr>) 1705314645123 demo_fs =
     (\<lparr>success = False, message = ''Backup cancelled''\<rparr>, demo_fs)"
proof -
  have d: "db_file demo_fs \<noteq> None" by (simp add: demo_fs_def)
  show ?thesis
    using createManualBackup_cancelled[of demo_fs "\<lparr>canceled = True, chosen_path = []\<rparr>"
        AppConfig 1705314645123 1705314645123 1705314645123] d
    by simp
qed

text \<open>
  C9 as stated fails: the cancelled outcome is folded into the failure shape. A cancelled
  call and a call whose copy fails both return \<open>success = false\<close> with a message.
\<close>

theorem createManualBackup_cancel_has_failure_shape:
  "createManualBackup AppConfig 1705314645123 1705314645123
     (Inr \<lparr>canceled = True, chosen_path = []\<rparr>) 1705314645123
     (demo_fs\<lparr>unwritable := [''/mnt/usb/backup.db'']\<rparr>) =
     (\<lparr>success = False, message = ''Backup cancelled''\<rparr>,
      demo_fs\<lparr>unwritable := [''/mnt/usb/backup.db'']\<rparr>) \<and>
   createManualBackup AppConfig 1705314645123 1705314645123
     (Inr \<lparr>canceled = False, chosen_path = ''/mnt/usb/backup.db''\<rparr>) 1705314645123
     (demo_fs\<lparr>unwritable := [''/mnt/usb/backup.db'']\<rparr>) =
     (\<lparr>success = False, message = ''Backup failed: EACCES: permission denied, copyfile''\<rparr>,
      demo_fs\<lparr>unwritable := [''/mnt/usb/backup.db'']\<rparr>)"
  by (simp add: createManualBackup_def backupFileName_snapshot_name copy_db_to_path_def
      demo_fs_def)

end
